theory Spec2Isabelle
  imports Complex_Main
begin

section \<open>Data model\<close>

text \<open>
  The dashboard is one Python script, \<^verbatim>\<open>streamlit_app.py\<close>, run top to bottom on every
  user interaction. The catalog is a pandas DataFrame read from \<^verbatim>\<open>data/clients.csv\<close>;
  it is modelled as the list of its rows, in file order.

  A numeric cell of the CSV is read by pandas as an integer (int64) or as a
  float (float64). Floats are modelled by the reals: rounding, NaN and the infinities are
  outside the model.
\<close>

datatype cell = I int | F real

text \<open>The numeric value of a cell, as the comparisons of pandas see it.\<close>

fun val :: "cell \<Rightarrow> real" where
  "val (I i) = of_int i"
| "val (F x) = x"

text \<open>Python's \<^verbatim>\<open>int(x)\<close> on a number truncates towards zero.\<close>

definition trunc :: "real \<Rightarrow> int" where
  "trunc x = (if x < 0 then \<lceil>x\<rceil> else \<lfloor>x\<rfloor>)"

fun py_int :: "cell \<Rightarrow> int" where
  "py_int (I i) = i"
| "py_int (F x) = trunc x"

text \<open>Python's \<^verbatim>\<open>float(x)\<close> on a number.\<close>

fun py_float :: "cell \<Rightarrow> real" where
  "py_float n = val n"

text \<open>One row of the CSV file: the five numeric columns.\<close>

record csv_row =
  age :: cell
  revenu :: cell
  anciennete :: cell
  nb_incidents :: cell
  score_credit :: cell

text \<open>One row of \<^verbatim>\<open>clients\<close>: the five columns and the \<^verbatim>\<open>client_id\<close> column.\<close>

record client_record = csv_row +
  client_id :: nat

text \<open>The exceptions that the script can meet.\<close>

datatype py_exception =
  FileNotFoundError
  | IndexError
  | ValueError
  | ConnectionError
  | Timeout
  | HTTPError
  | JSONDecodeError

section \<open>Loading the catalog (lines 15 to 19)\<close>

text \<open>
  \<^verbatim>\<open>pd.read_csv(...).reset_index().rename(columns={"index": "client_id"})\<close>:
  \<^verbatim>\<open>read_csv\<close> gives the rows the default index 0, 1, 2, ...; \<^verbatim>\<open>reset_index\<close> turns that index
  into a column, which is renamed to \<^verbatim>\<open>client_id\<close>.
\<close>

definition with_id :: "nat \<Rightarrow> csv_row \<Rightarrow> client_record" where
  "with_id i r =
     \<lparr>age = age r, revenu = revenu r, anciennete = anciennete r,
      nb_incidents = nb_incidents r, score_credit = score_credit r, client_id = i\<rparr>"

fun reset_index :: "nat \<Rightarrow> csv_row list \<Rightarrow> client_record list" where
  "reset_index i [] = []"
| "reset_index i (r # rs) = with_id i r # reset_index (Suc i) rs"

text \<open>
  The file is \<open>None\<close> when it does not exist: \<^verbatim>\<open>read_csv\<close> raises
  \<^verbatim>\<open>FileNotFoundError\<close>, which the script catches to stop the run.
\<close>

definition load_clients :: "csv_row list option \<Rightarrow> py_exception + client_record list" where
  "load_clients file =
     (case file of None \<Rightarrow> Inl FileNotFoundError | Some rows \<Rightarrow> Inr (reset_index 0 rows))"

section \<open>Sidebar filters (lines 23 to 33)\<close>

text \<open>
  \<^verbatim>\<open>int(clients.age.min())\<close>: the minimum of a column, truncated. On an empty column pandas
  gives NaN and \<^verbatim>\<open>int\<close> raises \<^verbatim>\<open>ValueError\<close>.
\<close>

definition int_min :: "cell list \<Rightarrow> py_exception + int" where
  "int_min col =
     (case col of [] \<Rightarrow> Inl ValueError | v # vs \<Rightarrow> Inr (trunc (fold min (map val vs) (val v))))"

definition int_max :: "cell list \<Rightarrow> py_exception + int" where
  "int_max col =
     (case col of [] \<Rightarrow> Inl ValueError | v # vs \<Rightarrow> Inr (trunc (fold max (map val vs) (val v))))"

text \<open>
  \<^verbatim>\<open>st.sidebar.slider(label, min_value, max_value, value)\<close> with a pair as \<^verbatim>\<open>value\<close> is a
  range slider. Before it shows the widget, Streamlit makes the bounds contain the preset
  \<^verbatim>\<open>value\<close>: it orders the two bounds, orders the preset, and then takes the lesser of the
  preset's start and the lower bound, and the greater of the preset's end and the upper
  bound.
\<close>

definition preset_range :: "int \<times> int \<Rightarrow> int \<times> int" where
  "preset_range v = (if fst v > snd v then (snd v, fst v) else v)"

definition slider_bounds :: "int \<Rightarrow> int \<Rightarrow> int \<times> int \<Rightarrow> int \<times> int" where
  "slider_bounds min_value max_value v =
     (let lo = min min_value max_value;
          hi = max lo max_value
      in (min (fst (preset_range v)) lo, max (snd (preset_range v)) hi))"

text \<open>A range is selectable when it lies within the bounds of the widget.\<close>

definition selectable :: "int \<times> int \<Rightarrow> int \<times> int \<Rightarrow> bool" where
  "selectable bounds v \<longleftrightarrow> fst bounds \<le> fst v \<and> fst v \<le> snd v \<and> snd v \<le> snd bounds"

text \<open>
  The range that the slider returns: the preset until the user chooses, then the user's
  choice, which the widget keeps within its bounds.
\<close>

definition slider :: "int \<Rightarrow> int \<Rightarrow> int \<times> int \<Rightarrow> (int \<times> int) option \<Rightarrow> int \<times> int" where
  "slider min_value max_value v choice =
     (case choice of
        None \<Rightarrow> preset_range v
      | Some w \<Rightarrow>
          if selectable (slider_bounds min_value max_value v) w then w else preset_range v)"

text \<open>The widest selectable range.\<close>

definition widest :: "int \<times> int \<Rightarrow> int \<times> int" where
  "widest bounds = bounds"

text \<open>The presets of lines 23 to 25.\<close>

definition age_preset :: "int \<times> int" where
  "age_preset = (18, 70)"

definition income_preset :: "int \<times> int" where
  "income_preset = (1000, 100000)"

definition incident_preset :: "int \<times> int" where
  "incident_preset = (0, 10)"

text \<open>
  The comparisons of a column with a bound give a boolean column each; \<^verbatim>\<open>&\<close> combines
  two boolean columns row by row.
\<close>

definition col_ge :: "cell list \<Rightarrow> int \<Rightarrow> bool list" where
  "col_ge col k = map (\<lambda>v. of_int k \<le> val v) col"

definition col_le :: "cell list \<Rightarrow> int \<Rightarrow> bool list" where
  "col_le col k = map (\<lambda>v. val v \<le> of_int k) col"

definition mask_and :: "bool list \<Rightarrow> bool list \<Rightarrow> bool list" where
  "mask_and a b = map (\<lambda>(x, y). x \<and> y) (zip a b)"

text \<open>\<^verbatim>\<open>df[mask]\<close>: the rows whose entry in the boolean column is true, in order.\<close>

fun select_rows :: "'a list \<Rightarrow> bool list \<Rightarrow> 'a list" where
  "select_rows (r # rs) (m # ms) = (if m then r # select_rows rs ms else select_rows rs ms)"
| "select_rows _ _ = []"

definition filtered_clients ::
  "client_record list \<Rightarrow> int \<times> int \<Rightarrow> int \<times> int \<Rightarrow> int \<times> int \<Rightarrow> client_record list" where
  "filtered_clients clients age_filter income_filter incident_filter =
     select_rows clients
       (mask_and (mask_and (mask_and (mask_and (mask_and
          (col_ge (map age clients) (fst age_filter))
          (col_le (map age clients) (snd age_filter)))
          (col_ge (map revenu clients) (fst income_filter)))
          (col_le (map revenu clients) (snd income_filter)))
          (col_ge (map nb_incidents clients) (fst incident_filter)))
          (col_le (map nb_incidents clients) (snd incident_filter)))"

text \<open>The count shown in the sidebar: \<^verbatim>\<open>len(filtered_clients)\<close>.\<close>

definition shown_count ::
  "client_record list \<Rightarrow> int \<times> int \<Rightarrow> int \<times> int \<Rightarrow> int \<times> int \<Rightarrow> nat" where
  "shown_count clients age_filter income_filter incident_filter =
     length (filtered_clients clients age_filter income_filter incident_filter)"

text \<open>
  The predicate of the specification: a record is inside all three inclusive ranges.
\<close>

definition in_range :: "int \<times> int \<Rightarrow> cell \<Rightarrow> bool" where
  "in_range rg v \<longleftrightarrow> of_int (fst rg) \<le> val v \<and> val v \<le> of_int (snd rg)"

definition satisfies :: "int \<times> int \<Rightarrow> int \<times> int \<Rightarrow> int \<times> int \<Rightarrow> client_record \<Rightarrow> bool" where
  "satisfies age_filter income_filter incident_filter r \<longleftrightarrow>
     in_range age_filter (age r) \<and> in_range income_filter (revenu r)
     \<and> in_range incident_filter (nb_incidents r)"


section \<open>Client selection (lines 37 to 39)\<close>

text \<open>
  \<^verbatim>\<open>st.selectbox(label, options)\<close> returns the chosen option, the first one until the user
  chooses, and \<^verbatim>\<open>None\<close> when there is no option at all.
\<close>

definition selectbox :: "'a list \<Rightarrow> nat \<Rightarrow> 'a option" where
  "selectbox opts i =
     (if opts = [] then None else Some (opts ! (if i < length opts then i else 0)))"

text \<open>
  \<^verbatim>\<open>filtered_clients[filtered_clients.client_id == selected_client_id].iloc[0]\<close>: the rows
  whose id is the selected one, then the first of them; \<^verbatim>\<open>.iloc[0]\<close> raises
  \<^verbatim>\<open>IndexError\<close> on an empty frame. The selection \<^verbatim>\<open>None\<close> is equal to no id.
\<close>

definition col_eq :: "nat list \<Rightarrow> nat option \<Rightarrow> bool list" where
  "col_eq col sel = map (\<lambda>i. Some i = sel) col"

definition iloc0 :: "'a list \<Rightarrow> py_exception + 'a" where
  "iloc0 rows = (case rows of [] \<Rightarrow> Inl IndexError | r # _ \<Rightarrow> Inr r)"

definition client :: "client_record list \<Rightarrow> nat option \<Rightarrow> py_exception + client_record" where
  "client view selected_client_id =
     iloc0 (select_rows view (col_eq (map client_id view) selected_client_id))"

section \<open>Strings\<close>

text \<open>
  A Python string is a sequence of Unicode code points. \<open>str\<close> gives the string of an
  ASCII literal.
\<close>

type_synonym py_str = "nat list"

definition str :: "string \<Rightarrow> py_str" where
  "str s = map of_char s"

section \<open>The scoring call (lines 43 to 61)\<close>

text \<open>A number of the JSON payload: an integer or a float.\<close>

datatype json_number = JInt int | JFloat real

type_synonym payload = "(string \<times> json_number) list"

definition payload :: "client_record \<Rightarrow> payload" where
  "payload c =
     [(''age'', JInt (py_int (age c))),
      (''revenu'', JFloat (py_float (revenu c))),
      (''anciennete'', JInt (py_int (anciennete c))),
      (''nb_incidents'', JInt (py_int (nb_incidents c))),
      (''score_credit'', JFloat (py_float (score_credit c)))]"

fun is_int :: "json_number \<Rightarrow> bool" where
  "is_int (JInt _) = True"
| "is_int (JFloat _) = False"

text \<open>
  The decoded body of a response, \<^verbatim>\<open>r.json()\<close>: an object whose keys \<^verbatim>\<open>score\<close> (a number)
  and \<^verbatim>\<open>explanations\<close> (a list of strings) may each be absent.
\<close>

record response =
  score_key :: "real option"
  explanations_key :: "py_str list option"

text \<open>
  What \<^verbatim>\<open>requests.post\<close> returns: the status code and the body, \<open>None\<close> when the body is
  not JSON (\<^verbatim>\<open>r.json()\<close> raises then).
\<close>

record http_response =
  status_code :: nat
  body :: "response option"

text \<open>
  The remote service as the script sees it: for a payload, \<^verbatim>\<open>requests.post\<close> raises (no
  connection, time-out after 10 seconds) or returns a response.
\<close>

type_synonym service = "payload \<Rightarrow> py_exception + http_response"

text \<open>
  \<^verbatim>\<open>Response.raise_for_status()\<close> of the requests library raises \<^verbatim>\<open>HTTPError\<close> for the
  status codes 400 to 599 and returns for every other code.
\<close>

definition raise_for_status :: "http_response \<Rightarrow> py_exception + unit" where
  "raise_for_status r =
     (if 400 \<le> status_code r \<and> status_code r < 600 then Inl HTTPError else Inr ())"

definition json :: "http_response \<Rightarrow> py_exception + response" where
  "json r = (case body r of None \<Rightarrow> Inl JSONDecodeError | Some resp \<Rightarrow> Inr resp)"

text \<open>\<^verbatim>\<open>resp.get("score", None)\<close> and \<^verbatim>\<open>resp.get("explanations", [])\<close>.\<close>

definition get_score :: "response \<Rightarrow> real option" where
  "get_score resp = score_key resp"

definition get_explanations :: "response \<Rightarrow> py_str list" where
  "get_explanations resp = (case explanations_key resp of None \<Rightarrow> [] | Some fs \<Rightarrow> fs)"

text \<open>
  The variables that the block sets: \<^verbatim>\<open>score\<close>, \<^verbatim>\<open>shap_factors\<close>, the exception shown by
  \<^verbatim>\<open>st.error(f"Erreur API : {e}")\<close> if one was caught, and the requests sent.
\<close>

record api_state =
  score :: "real option"
  shap_factors :: "py_str list"
  api_error :: "py_exception option"
  posted :: "payload list"

definition initial_state :: api_state where
  "initial_state = \<lparr>score = None, shap_factors = [], api_error = None, posted = []\<rparr>"

text \<open>
  The body of the \<^verbatim>\<open>try\<close>: one request, then the status check, the decoding and the two
  reads. Every exception leaves the body at once, before \<^verbatim>\<open>score\<close> and
  \<^verbatim>\<open>shap_factors\<close> are assigned.
\<close>

definition try_body :: "service \<Rightarrow> payload \<Rightarrow> py_exception + real option \<times> py_str list" where
  "try_body svc p =
     (case svc p of
        Inl e \<Rightarrow> Inl e
      | Inr r \<Rightarrow>
          (case raise_for_status r of
             Inl e \<Rightarrow> Inl e
           | Inr _ \<Rightarrow>
               (case json r of
                  Inl e \<Rightarrow> Inl e
                | Inr resp \<Rightarrow> Inr (get_score resp, get_explanations resp))))"

definition call_api :: "service \<Rightarrow> bool \<Rightarrow> client_record \<Rightarrow> api_state" where
  "call_api svc button c =
     (if button then
        (case try_body svc (payload c) of
           Inl e \<Rightarrow> initial_state\<lparr>api_error := Some e, posted := [payload c]\<rparr>
         | Inr (sc, fs) \<Rightarrow> initial_state\<lparr>score := sc, shap_factors := fs, posted := [payload c]\<rparr>)
      else initial_state)"

section \<open>The score gauge (lines 67 to 93)\<close>

datatype verdict = Eligible | PotentiallyEligible | NotEligible

text \<open>
  What the summary column shows: the gauge with its value and the verdict below it, or
  the invitation to press the button when there is no score.
\<close>

datatype summary = Gauge real verdict | Info

definition col_summary :: "real option \<Rightarrow> summary" where
  "col_summary sc =
     (case sc of
        Some s \<Rightarrow>
          Gauge (s * 100)
            (if s \<ge> 0.8 then Eligible else if s \<ge> 0.5 then PotentiallyEligible else NotEligible)
      | None \<Rightarrow> Info)"

section \<open>The explanation factors (lines 105 to 132)\<close>

text \<open>Sequencing of steps that may raise: the first exception ends the sequence.\<close>

definition bind_exc :: "py_exception + 'a \<Rightarrow> ('a \<Rightarrow> py_exception + 'b) \<Rightarrow> py_exception + 'b" where
  "bind_exc m f = (case m of Inl e \<Rightarrow> Inl e | Inr x \<Rightarrow> f x)"

text \<open>A list comprehension whose element expression may raise.\<close>

fun map_exc :: "('a \<Rightarrow> py_exception + 'b) \<Rightarrow> 'a list \<Rightarrow> py_exception + 'b list" where
  "map_exc f [] = Inr []"
| "map_exc f (x # xs) =
     bind_exc (f x) (\<lambda>y. bind_exc (map_exc f xs) (\<lambda>ys. Inr (y # ys)))"

text \<open>\<^verbatim>\<open>s.split(sep)\<close> for a separator of one character: one more part than separators.\<close>

fun split_on :: "'a \<Rightarrow> 'a list \<Rightarrow> 'a list list" where
  "split_on sep [] = [[]]"
| "split_on sep (c # cs) =
     (if c = sep then [] # split_on sep cs
      else (case split_on sep cs of [] \<Rightarrow> [[c]] | p # ps \<Rightarrow> (c # p) # ps))"

text \<open>
  \<^verbatim>\<open>s.split()\<close>: the maximal runs of characters that are not white space. The white space
  of Python strings: the ASCII codes 9 to 13 and 28 to 32, and the code points U+0085,
  U+00A0, U+1680, U+2000 to U+200A, U+2028, U+2029, U+202F, U+205F and U+3000.
\<close>

definition is_space :: "nat \<Rightarrow> bool" where
  "is_space n \<longleftrightarrow>
     (9 \<le> n \<and> n \<le> 13) \<or> (28 \<le> n \<and> n \<le> 32) \<or> n = 0x85 \<or> n = 0xA0 \<or> n = 0x1680
     \<or> (0x2000 \<le> n \<and> n \<le> 0x200A) \<or> n = 0x2028 \<or> n = 0x2029 \<or> n = 0x202F
     \<or> n = 0x205F \<or> n = 0x3000"

fun split_ws_from :: "py_str \<Rightarrow> py_str \<Rightarrow> py_str list" where
  "split_ws_from cur [] = (if cur = [] then [] else [rev cur])"
| "split_ws_from cur (c # cs) =
     (if is_space c then (if cur = [] then split_ws_from [] cs else rev cur # split_ws_from [] cs)
      else split_ws_from (c # cur) cs)"

definition split_ws :: "py_str \<Rightarrow> py_str list" where
  "split_ws s = split_ws_from [] s"

text \<open>The apostrophe, U+0027.\<close>

definition quote :: nat where
  "quote = 0x27"

text \<open>\<^verbatim>\<open>f.split("'")[1]\<close>: \<^verbatim>\<open>IndexError\<close> when the string has no quote.\<close>

definition feature_name :: "py_str \<Rightarrow> py_exception + py_str" where
  "feature_name f = (case split_on quote f of _ # n # _ \<Rightarrow> Inr n | _ \<Rightarrow> Inl IndexError)"

text \<open>
  \<^verbatim>\<open>float(f.split()[-1])\<close>. Python's conversion of a string to a float is the parameter
  \<open>str_float\<close>, \<open>None\<close> where \<^verbatim>\<open>float\<close> raises \<^verbatim>\<open>ValueError\<close>.
\<close>

definition contribution :: "(py_str \<Rightarrow> real option) \<Rightarrow> py_str \<Rightarrow> py_exception + real" where
  "contribution str_float f =
     (case split_ws f of
        [] \<Rightarrow> Inl IndexError
      | t # ts \<Rightarrow> (case str_float (last (t # ts)) of None \<Rightarrow> Inl ValueError | Some v \<Rightarrow> Inr v))"

text \<open>
  \<^verbatim>\<open>max(abs(np.array(contributions))) or 1\<close>: the greatest absolute value, replaced by 1
  when it is zero; \<^verbatim>\<open>max\<close> of nothing raises \<^verbatim>\<open>ValueError\<close>.
\<close>

definition max_val :: "real list \<Rightarrow> py_exception + real" where
  "max_val contributions =
     (case contributions of
        [] \<Rightarrow> Inl ValueError
      | c # cs \<Rightarrow> (let m = fold max (map abs cs) \<bar>c\<bar> in Inr (if m = 0 then 1 else m)))"

definition contributions_norm :: "real list \<Rightarrow> py_exception + real list" where
  "contributions_norm contributions =
     bind_exc (max_val contributions) (\<lambda>m. Inr (map (\<lambda>c. c / m) contributions))"

text \<open>The two texts of the summary lines, in UTF-8, and their colours.\<close>

definition reduit :: string where
  "reduit = ''r'' @ [CHR 0xC3, CHR 0xA9] @ ''duit le risque''"

definition augmente :: string where
  "augmente = ''augmente le risque''"

definition direction :: "real \<Rightarrow> string" where
  "direction v = (if v < 0 then reduit else augmente)"

definition color :: "real \<Rightarrow> string" where
  "color v = (if v < 0 then ''#4CAF50'' else ''#F44336'')"

text \<open>One line of the summary: the name, the direction, the colour and the magnitude.\<close>

record factor_line =
  name :: py_str
  line_direction :: string
  line_color :: string
  magnitude :: real

definition summary_line ::
  "(py_str \<Rightarrow> real option) \<Rightarrow> py_str \<Rightarrow> py_exception + factor_line" where
  "summary_line str_float f =
     bind_exc (feature_name f) (\<lambda>n.
     bind_exc (contribution str_float f) (\<lambda>v.
       Inr \<lparr>name = n, line_direction = direction v, line_color = color v, magnitude = \<bar>v\<bar>\<rparr>))"

text \<open>What the section shows: the radar chart (angles and radii) and the summary lines.\<close>

record shap_view =
  theta :: "py_str list"
  radius :: "real list"
  summary_lines :: "factor_line list"

definition shap_section ::
  "(py_str \<Rightarrow> real option) \<Rightarrow> real option \<Rightarrow> py_str list \<Rightarrow> py_exception + shap_view option" where
  "shap_section str_float sc fs =
     (if sc \<noteq> None \<and> fs \<noteq> [] then
        bind_exc (map_exc feature_name fs) (\<lambda>features.
        bind_exc (map_exc (contribution str_float) fs) (\<lambda>contributions.
        bind_exc (contributions_norm contributions) (\<lambda>norm.
        bind_exc (map_exc (summary_line str_float) fs) (\<lambda>ls.
          Inr (Some \<lparr>theta = features, radius = map abs norm, summary_lines = ls\<rparr>)))))
      else Inr None)"

section \<open>The script as a whole\<close>

text \<open>
  What one run of the script reads: the file, the user's choice on each of the three
  sliders (\<open>None\<close> until the user moves the slider), the index chosen in the select box,
  whether the button was pressed, and the remote service.
\<close>

record inputs =
  csv_file :: "csv_row list option"
  age_choice :: "(int \<times> int) option"
  income_choice :: "(int \<times> int) option"
  incident_choice :: "(int \<times> int) option"
  chosen :: nat
  button :: bool
  remote :: service

record page =
  sidebar_count :: nat
  selected :: client_record
  api :: api_state
  gauge :: summary
  explain :: "shap_view option"
  table :: "client_record list"

text \<open>
  A run ends with an exception that nothing catches, or is stopped by \<^verbatim>\<open>st.stop()\<close> after
  the message about the missing file, or renders the page.
\<close>

datatype run = Uncaught py_exception | Stopped | Rendered page

text \<open>
  One slider call of the script: the two bounds are computed, the minimum first, and
  given to the widget with the preset.
\<close>

definition range_slider ::
  "cell list \<Rightarrow> int \<times> int \<Rightarrow> (int \<times> int) option \<Rightarrow> py_exception + int \<times> int" where
  "range_slider col v choice =
     bind_exc (int_min col) (\<lambda>min_value.
     bind_exc (int_max col) (\<lambda>max_value. Inr (slider min_value max_value v choice)))"

text \<open>Lines 23 to 33: the three sliders and the filtered view.\<close>

definition sidebar :: "inputs \<Rightarrow> client_record list \<Rightarrow> py_exception + client_record list" where
  "sidebar inp clients =
     bind_exc (range_slider (map age clients) age_preset (age_choice inp)) (\<lambda>age_filter.
     bind_exc (range_slider (map revenu clients) income_preset (income_choice inp))
       (\<lambda>income_filter.
     bind_exc (range_slider (map nb_incidents clients) incident_preset (incident_choice inp))
       (\<lambda>incident_filter.
         Inr (filtered_clients clients age_filter income_filter incident_filter))))"

text \<open>
  Lines 43 to 136, once the client is resolved: the scoring call, the gauge, the factors
  and the table of the view.
\<close>

definition score_and_show ::
  "(py_str \<Rightarrow> real option) \<Rightarrow> service \<Rightarrow> bool \<Rightarrow> client_record list \<Rightarrow> client_record
     \<Rightarrow> py_exception + page" where
  "score_and_show str_float svc pressed view c =
     (let st = call_api svc pressed c
      in bind_exc (shap_section str_float (score st) (shap_factors st)) (\<lambda>ex.
           Inr \<lparr>sidebar_count = length view, selected = c, api = st,
                gauge = col_summary (score st), explain = ex, table = view\<rparr>))"

definition render ::
  "(py_str \<Rightarrow> real option) \<Rightarrow> inputs \<Rightarrow> client_record list \<Rightarrow> py_exception + page" where
  "render str_float inp clients =
     bind_exc (sidebar inp clients) (\<lambda>view.
       (let selected_client_id = selectbox (map client_id view) (chosen inp)
        in bind_exc (client view selected_client_id)
             (score_and_show str_float (remote inp) (button inp) view)))"

definition dashboard :: "(py_str \<Rightarrow> real option) \<Rightarrow> inputs \<Rightarrow> run" where
  "dashboard str_float inp =
     (case load_clients (csv_file inp) of
        Inl _ \<Rightarrow> Stopped
      | Inr clients \<Rightarrow>
          (case render str_float inp clients of Inl e \<Rightarrow> Uncaught e | Inr p \<Rightarrow> Rendered p))"

section \<open>Decimal literals\<close>

text \<open>
  A conversion of strings to numbers for the examples: an optional sign, digits, and
  optionally a point and more digits, as in \<^verbatim>\<open>-0.10\<close>; the codes 43, 45 and 46 are the
  plus sign, the minus sign and the point. Python's \<^verbatim>\<open>float\<close> reads these so (and reads
  more forms).
\<close>

definition digit :: "nat \<Rightarrow> nat option" where
  "digit n = (if 48 \<le> n \<and> n \<le> 57 then Some (n - 48) else None)"

fun digits :: "nat \<Rightarrow> py_str \<Rightarrow> nat option" where
  "digits acc [] = Some acc"
| "digits acc (c # cs) = (case digit c of None \<Rightarrow> None | Some d \<Rightarrow> digits (10 * acc + d) cs)"

definition unsigned_decimal :: "py_str \<Rightarrow> real option" where
  "unsigned_decimal s =
     (let ip = takeWhile (\<lambda>c. c \<noteq> 46) s;
          fp = drop 1 (dropWhile (\<lambda>c. c \<noteq> 46) s)
      in if ip = [] \<and> fp = [] then None
         else (case digits 0 ip of
                 None \<Rightarrow> None
               | Some a \<Rightarrow>
                   (case digits 0 fp of
                      None \<Rightarrow> None
                    | Some b \<Rightarrow> Some (real a + real b / 10 ^ length fp))))"

definition decimal :: "py_str \<Rightarrow> real option" where
  "decimal s =
     (case s of
        [] \<Rightarrow> None
      | c # cs \<Rightarrow>
          if c = 45 then map_option uminus (unsigned_decimal cs)
          else if c = 43 then unsigned_decimal cs
          else unsigned_decimal s)"

section \<open>Example data\<close>

text \<open>A catalog of three clients, aged 20, 40 and 60, used by the examples below.\<close>

definition example_row :: "int \<Rightarrow> real \<Rightarrow> csv_row" where
  "example_row a r =
     \<lparr>age = I a, revenu = F r, anciennete = I 3, nb_incidents = I 0, score_credit = F 0.5\<rparr>"

definition example_rows :: "csv_row list" where
  "example_rows = [example_row 20 1000, example_row 40 2000.5, example_row 60 3000.75]"

definition example_clients :: "client_record list" where
  "example_clients = reset_index 0 example_rows"

text \<open>A catalog whose greatest income, 150000.5, is above the preset of the slider.\<close>

definition wealthy_clients :: "client_record list" where
  "wealthy_clients = reset_index 0 [example_row 30 50000, example_row 50 150000.5]"

text \<open>The run on the example file before the user touches anything.\<close>

definition untouched_inputs :: inputs where
  "untouched_inputs =
     \<lparr>csv_file = Some example_rows, age_choice = None, income_choice = None,
      incident_choice = None, chosen = 0, button = False,
      remote = (\<lambda>_. Inl ConnectionError)\<rparr>"

text \<open>
  Choices that no client of the example catalog satisfies: the only client aged 60 has an
  income above 1000.
\<close>

definition empty_view_inputs :: inputs where
  "empty_view_inputs =
     \<lparr>csv_file = Some example_rows, age_choice = Some (60, 60),
      income_choice = Some (1000, 1000), incident_choice = Some (0, 0), chosen = 0,
      button = False, remote = (\<lambda>_. Inl ConnectionError)\<rparr>"

text \<open>A service that answers every request with the given status and body.\<close>

definition answering :: "nat \<Rightarrow> response option \<Rightarrow> service" where
  "answering code b = (\<lambda>_. Inr \<lparr>status_code = code, body = b\<rparr>)"

text \<open>
  The income range narrowed to 1000 to 3000, which keeps the first two clients of the
  example catalog; the first client selected, the button pressed.
\<close>

definition pressed_inputs :: "service \<Rightarrow> inputs" where
  "pressed_inputs svc =
     \<lparr>csv_file = Some example_rows, age_choice = Some (20, 60),
      income_choice = Some (1000, 3000), incident_choice = Some (0, 0), chosen = 0,
      button = True, remote = svc\<rparr>"

text \<open>Explanation strings of the examples.\<close>

definition age_030 :: py_str where
  "age_030 = str '''age' contributes 0.30''"

definition age_042 :: py_str where
  "age_042 = str '''age' contributes 0.42''"

definition revenu_010 :: py_str where
  "revenu_010 = str '''revenu' contributes -0.10''"

definition no_quote :: py_str where
  "no_quote = str ''age contributes 0.42''"

definition no_number :: py_str where
  "no_number = str '''age' contributes lots''"

text \<open>The response \<^verbatim>\<open>{}\<close>: both keys absent.\<close>

definition empty_response :: response where
  "empty_response = \<lparr>score_key = None, explanations_key = None\<rparr>"

section \<open>Notions of the specification\<close>

text \<open>
  An explanation string has a quoted segment when it has an opening and a closing quote,
  and a numeric trailing token when its last token exists and is a number. It is
  malformed when it lacks one of the two.
\<close>

definition quoted_segment :: "py_str \<Rightarrow> bool" where
  "quoted_segment f \<longleftrightarrow> 2 \<le> length (filter (\<lambda>c. c = quote) f)"

definition numeric_tail :: "(py_str \<Rightarrow> real option) \<Rightarrow> py_str \<Rightarrow> bool" where
  "numeric_tail str_float f \<longleftrightarrow>
     (case split_ws f of [] \<Rightarrow> False | t # ts \<Rightarrow> str_float (last (t # ts)) \<noteq> None)"

definition malformed :: "(py_str \<Rightarrow> real option) \<Rightarrow> py_str \<Rightarrow> bool" where
  "malformed str_float f \<longleftrightarrow> \<not> quoted_segment f \<or> \<not> numeric_tail str_float f"

text \<open>
  A scoring call fails when the request raises (network error, time-out) or the response
  has a status from 400 to 599.
\<close>

definition call_fails :: "service \<Rightarrow> payload \<Rightarrow> bool" where
  "call_fails svc p \<longleftrightarrow>
     (case svc p of Inl _ \<Rightarrow> True | Inr r \<Rightarrow> 400 \<le> status_code r \<and> status_code r < 600)"

section \<open>Evaluation rules\<close>

lemmas example_defs =
  example_clients_def example_rows_def example_row_def with_id_def

lemmas filter_defs = filtered_clients_def col_ge_def col_le_def mask_and_def

lemmas parse_defs =
  feature_name_def quote_def contribution_def split_ws_def is_space_def decimal_def
  unsigned_decimal_def digit_def str_def age_030_def age_042_def revenu_010_def no_quote_def
  no_number_def

lemmas slider_defs =
  range_slider_def int_min_def int_max_def trunc_def slider_def slider_bounds_def
  preset_range_def selectable_def age_preset_def income_preset_def incident_preset_def
  bind_exc_def

lemmas api_defs =
  call_api_def try_body_def raise_for_status_def json_def get_score_def get_explanations_def
  initial_state_def answering_def

section \<open>The filter engine\<close>

lemma select_rows_map: "select_rows rs (map P rs) = filter P rs"
  by (induction rs) simp_all

lemma mask_and_map: "mask_and (map P xs) (map Q xs) = map (\<lambda>x. P x \<and> Q x) xs"
  by (induction xs) (simp_all add: mask_and_def)

text \<open>The six boolean columns and the row selection amount to one filter.\<close>

lemma filtered_clients_filter:
  "filtered_clients clients a b c = filter (satisfies a b c) clients"
proof -
  have "filtered_clients clients a b c =
      select_rows clients
        (map (\<lambda>r. ((((of_int (fst a) \<le> val (age r) \<and> val (age r) \<le> of_int (snd a))
           \<and> of_int (fst b) \<le> val (revenu r)) \<and> val (revenu r) \<le> of_int (snd b))
           \<and> of_int (fst c) \<le> val (nb_incidents r)) \<and> val (nb_incidents r) \<le> of_int (snd c))
         clients)"
    by (simp add: filtered_clients_def col_ge_def col_le_def mask_and_map)
  also have "\<dots> = filter (satisfies a b c) clients"
    unfolding select_rows_map by (rule filter_cong) (auto simp: satisfies_def in_range_def)
  finally show ?thesis .
qed

text \<open>
  Claim C1. For every catalog and every three ranges, the filtered view is the
  subsequence of the catalog, in catalog order, at exactly the positions whose record is
  inside all three inclusive ranges; a record is in the view if and only if it is in the
  catalog and inside the three ranges; the count shown is the number of those positions;
  and when no record matches, the view is empty and the count is zero.
\<close>

theorem filtered_clients_exact:
  "filtered_clients clients a b c =
     nths clients {i. i < length clients \<and> satisfies a b c (clients ! i)}
   \<and> set (filtered_clients clients a b c) = {r \<in> set clients. satisfies a b c r}
   \<and> shown_count clients a b c = card {i. i < length clients \<and> satisfies a b c (clients ! i)}
   \<and> ((\<forall>r \<in> set clients. \<not> satisfies a b c r) \<longrightarrow>
        filtered_clients clients a b c = [] \<and> shown_count clients a b c = 0)"
proof -
  let ?S = "{i. i < length clients \<and> satisfies a b c (clients ! i)}"
  have eq: "filtered_clients clients a b c = nths clients ?S"
    by (simp add: filtered_clients_filter filter_eq_nths)
  have "length (nths clients ?S) = card {i. i < length clients \<and> i \<in> ?S}"
    by (rule length_nths)
  also have "{i. i < length clients \<and> i \<in> ?S} = ?S" by auto
  finally have cnt: "shown_count clients a b c = card ?S"
    by (simp add: shown_count_def eq)
  have emp: "(\<forall>r \<in> set clients. \<not> satisfies a b c r) \<longrightarrow>
        filtered_clients clients a b c = [] \<and> shown_count clients a b c = 0"
    by (simp add: shown_count_def filtered_clients_filter)
  have st: "set (filtered_clients clients a b c) = {r \<in> set clients. satisfies a b c r}"
    by (simp add: filtered_clients_filter)
  from eq st cnt emp show ?thesis by blast
qed

text \<open>
  On the example catalog the age range 18 to 50 keeps the clients aged 20 and 40, and
  the age range 70 to 80, which no client satisfies, gives the empty view.
\<close>

theorem filtered_clients_exact_witness:
  "list_all (\<lambda>r. \<not> satisfies (70, 80) (0, 100000) (0, 10) r) example_clients
   \<and> filtered_clients example_clients (70, 80) (0, 100000) (0, 10) = []
   \<and> shown_count example_clients (70, 80) (0, 100000) (0, 10) = 0
   \<and> filtered_clients example_clients (18, 50) (0, 100000) (0, 10) = take 2 example_clients
   \<and> shown_count example_clients (18, 50) (0, 100000) (0, 10) = 2"
proof -
  have h: "\<forall>r \<in> set example_clients. \<not> satisfies (70, 80) (0, 100000) (0, 10) r"
    by (simp add: example_defs satisfies_def in_range_def)
  have e: "filtered_clients example_clients (70, 80) (0, 100000) (0, 10) = []
      \<and> shown_count example_clients (70, 80) (0, 100000) (0, 10) = 0"
    using filtered_clients_exact [of example_clients "(70, 80)" "(0, 100000)" "(0, 10)"] h
    by blast
  have k: "filtered_clients example_clients (18, 50) (0, 100000) (0, 10) = take 2 example_clients"
    by (simp add: example_defs filter_defs)
  from h e k show ?thesis by (simp add: shown_count_def list_all_iff) (simp add: example_defs)
qed

section \<open>The catalog\<close>

lemma map_client_id_reset_index: "map client_id (reset_index k rows) = [k ..< k + length rows]"
  by (induction rows arbitrary: k) (simp_all add: with_id_def upt_rec)

lemma length_reset_index: "length (reset_index k rows) = length rows"
  by (induction rows arbitrary: k) simp_all

text \<open>
  Claim C9. After a successful load every record carries the \<open>client_id\<close> equal to its
  position in load order, and the ids are pairwise distinct. The catalog is a value that
  nothing updates: every record of every filtered view is the catalog's record at the
  position that its id names, and the ids of a view are distinct too.
\<close>

theorem client_id_is_position:
  assumes "load_clients (Some rows) = Inr clients"
  shows "length clients = length rows
    \<and> (\<forall>i < length clients. client_id (clients ! i) = i)
    \<and> distinct (map client_id clients)
    \<and> (\<forall>r \<in> set (filtered_clients clients a b c).
          client_id r < length clients \<and> clients ! client_id r = r)
    \<and> distinct (map client_id (filtered_clients clients a b c))"
proof -
  from assms have cl: "clients = reset_index 0 rows"
    by (simp add: load_clients_def)
  have ids: "map client_id clients = [0 ..< length rows]"
    by (simp add: cl map_client_id_reset_index)
  have len: "length clients = length rows"
    by (simp add: cl length_reset_index)
  have pos: "\<forall>i < length clients. client_id (clients ! i) = i"
  proof (intro allI impI)
    fix i assume i: "i < length clients"
    then have "client_id (clients ! i) = map client_id clients ! i" by simp
    also have "\<dots> = i" using i len by (simp add: ids)
    finally show "client_id (clients ! i) = i" .
  qed
  have dist: "distinct (map client_id clients)"
    by (simp add: ids)
  have view: "\<forall>r \<in> set (filtered_clients clients a b c).
          client_id r < length clients \<and> clients ! client_id r = r"
  proof
    fix r assume "r \<in> set (filtered_clients clients a b c)"
    then have "r \<in> set clients" by (simp add: filtered_clients_filter)
    then obtain i where "i < length clients" "clients ! i = r"
      by (auto simp: in_set_conv_nth)
    with pos show "client_id r < length clients \<and> clients ! client_id r = r" by auto
  qed
  have "distinct (map client_id (filter (satisfies a b c) clients))"
    using dist by (rule distinct_map_filter)
  then have dview: "distinct (map client_id (filtered_clients clients a b c))"
    by (simp add: filtered_clients_filter)
  from len pos dist view dview show ?thesis by blast
qed

text \<open>
  The example file loads as the example catalog, with the ids 0, 1 and 2.
\<close>

theorem client_id_is_position_witness:
  "load_clients (Some example_rows) = Inr example_clients
   \<and> length example_clients = 3
   \<and> map client_id example_clients = [0, 1, 2]
   \<and> distinct (map client_id example_clients)
   \<and> map client_id (filtered_clients example_clients (18, 50) (0, 100000) (0, 10)) = [0, 1]"
proof -
  have h: "load_clients (Some example_rows) = Inr example_clients"
    by (simp add: load_clients_def example_clients_def)
  from client_id_is_position [OF h, of "(18, 50)" "(0, 100000)" "(0, 10)"]
  have "length example_clients = length example_rows"
    and "distinct (map client_id example_clients)" by blast+
  with h show ?thesis
    by (simp add: example_defs filter_defs)
qed

section \<open>The bounds of the revenue slider\<close>

lemma fold_min_Min: "fold min xs (x::real) = Min (set (x # xs))"
  by (rule Min.set_eq_fold [symmetric])

lemma fold_max_Max: "fold max xs (x::real) = Max (set (x # xs))"
  by (rule Max.set_eq_fold [symmetric])

lemma int_max_Max:
  "col \<noteq> [] \<Longrightarrow> int_max col = Inr (trunc (Max (val ` set col)))"
  by (cases col) (simp_all add: int_max_def fold_max_Max)

lemma int_min_Min:
  "col \<noteq> [] \<Longrightarrow> int_min col = Inr (trunc (Min (val ` set col)))"
  by (cases col) (simp_all add: int_min_def fold_min_Min)

lemma trunc_mono: "x \<le> y \<Longrightarrow> trunc x \<le> trunc y"
proof -
  assume xy: "x \<le> y"
  show ?thesis
  proof (cases "x < 0")
    case x: True
    show ?thesis
    proof (cases "y < 0")
      case True
      with x xy show ?thesis by (simp add: trunc_def ceiling_mono)
    next
      case False
      from x have a: "\<lceil>x\<rceil> \<le> 0" by (simp add: ceiling_le_iff)
      from False have b: "0 \<le> \<lfloor>y\<rfloor>" by simp
      from x False have "trunc x = \<lceil>x\<rceil>" and "trunc y = \<lfloor>y\<rfloor>"
        by (simp_all add: trunc_def)
      with a b show ?thesis by linarith
    qed
  next
    case False
    with xy show ?thesis by (simp add: trunc_def floor_mono)
  qed
qed

text \<open>The bounds of the income slider contain the preset.\<close>

lemma income_bounds:
  "lo \<le> hi \<Longrightarrow> slider_bounds lo hi income_preset = (min 1000 lo, max 100000 hi)"
  by (simp add: slider_bounds_def preset_range_def income_preset_def Let_def)

text \<open>The slider returns a selectable range, whatever the user chose.\<close>

lemma slider_selectable:
  "selectable (slider_bounds min_value max_value v) (slider min_value max_value v choice)"
proof -
  have "selectable (slider_bounds min_value max_value v) (preset_range v)"
    by (auto simp: selectable_def slider_bounds_def preset_range_def Let_def)
  then show ?thesis
    by (simp add: slider_def split: option.split)
qed

text \<open>
  Claim C10, as the code has it. The script gives the slider the truncations of the least
  and the greatest \<open>revenu\<close> of the catalog, and the slider widens these bounds to contain
  its preset, 1000 to 100000: the selectable ranges lie between the lesser of 1000 and the
  truncated minimum and the greater of 100000 and the truncated maximum. A record whose
  \<open>revenu\<close> is strictly greater than that upper bound is in no filtered view: not at the
  widest selectable range, not at any range that the slider returns, whatever the user
  chose, and so in no view that the sidebar computes.
\<close>

theorem revenu_above_slider_bounds:
  assumes r: "r \<in> set clients"
    and big: "of_int (max 100000 (trunc (Max (val ` revenu ` set clients)))) < val (revenu r)"
  shows "\<exists>lo hi. int_min (map revenu clients) = Inr lo \<and> int_max (map revenu clients) = Inr hi
     \<and> lo = trunc (Min (val ` revenu ` set clients))
     \<and> hi = trunc (Max (val ` revenu ` set clients))
     \<and> slider_bounds lo hi income_preset = (min 1000 lo, max 100000 hi)
     \<and> r \<notin> set (filtered_clients clients age_filter (widest (slider_bounds lo hi income_preset))
                  incident_filter)
     \<and> (\<forall>choice. \<exists>v. range_slider (map revenu clients) income_preset choice = Inr v
           \<and> selectable (slider_bounds lo hi income_preset) v
           \<and> r \<notin> set (filtered_clients clients age_filter v incident_filter))
     \<and> (\<forall>inp view. sidebar inp clients = Inr view \<longrightarrow> r \<notin> set view)"
proof -
  let ?lo = "trunc (Min (val ` revenu ` set clients))"
  let ?hi = "trunc (Max (val ` revenu ` set clients))"
  let ?b = "slider_bounds ?lo ?hi income_preset"
  from r have ne: "map revenu clients \<noteq> []" by auto
  have lo: "int_min (map revenu clients) = Inr ?lo"
    using int_min_Min [OF ne] by (simp add: image_image)
  have hi: "int_max (map revenu clients) = Inr ?hi"
    using int_max_Max [OF ne] by (simp add: image_image)
  have "Min (val ` revenu ` set clients) \<le> val (revenu r)"
    using r by (intro Min_le) auto
  moreover have "val (revenu r) \<le> Max (val ` revenu ` set clients)"
    using r by (intro Max_ge) auto
  ultimately have "Min (val ` revenu ` set clients) \<le> Max (val ` revenu ` set clients)"
    by linarith
  then have "?lo \<le> ?hi" by (rule trunc_mono)
  then have b: "?b = (min 1000 ?lo, max 100000 ?hi)" by (rule income_bounds)
  have out: "r \<notin> set (filtered_clients clients af v nf)" if "snd v \<le> snd ?b" for v af nf
  proof -
    from that b have "real_of_int (snd v) \<le> of_int (max 100000 ?hi)" by simp
    with big have "\<not> val (revenu r) \<le> of_int (snd v)" by linarith
    then show ?thesis
      by (simp add: filtered_clients_filter satisfies_def in_range_def)
  qed
  have w: "r \<notin> set (filtered_clients clients age_filter (widest ?b) incident_filter)"
    by (rule out) (simp add: widest_def)
  have rs: "range_slider (map revenu clients) income_preset choice =
      Inr (slider ?lo ?hi income_preset choice)" for choice
    by (simp add: range_slider_def lo hi bind_exc_def)
  have sel: "\<exists>v. range_slider (map revenu clients) income_preset choice = Inr v
           \<and> selectable ?b v
           \<and> r \<notin> set (filtered_clients clients af v nf)" for choice af nf
  proof -
    have s: "selectable ?b (slider ?lo ?hi income_preset choice)"
      by (rule slider_selectable)
    then have "snd (slider ?lo ?hi income_preset choice) \<le> snd ?b"
      by (simp add: selectable_def)
    from out [OF this] s rs show ?thesis by blast
  qed
  have side: "r \<notin> set view" if "sidebar inp clients = Inr view" for inp view
  proof -
    from sel [of "income_choice inp"] obtain v
      where v: "range_slider (map revenu clients) income_preset (income_choice inp) = Inr v"
        and o: "\<And>af nf. r \<notin> set (filtered_clients clients af v nf)"
      using rs out slider_selectable
      by (metis selectable_def)
    from that v obtain af nf where "view = filtered_clients clients af v nf"
      by (auto simp: sidebar_def bind_exc_def split: sum.splits)
    with o show ?thesis by simp
  qed
  from lo hi b w sel side show ?thesis by blast
qed

text \<open>
  In the catalog with the incomes 50000 and 150000.5 the slider runs from 1000 to 150000,
  and the second client is in no view, neither before the user touches the slider nor at
  the widest choice.
\<close>

theorem revenu_above_slider_bounds_witness:
  "wealthy_clients ! 1 \<in> set wealthy_clients
   \<and> real_of_int (max 100000 (trunc (Max (val ` revenu ` set wealthy_clients))))
       < val (revenu (wealthy_clients ! 1))
   \<and> int_min (map revenu wealthy_clients) = Inr 50000
   \<and> int_max (map revenu wealthy_clients) = Inr 150000
   \<and> slider_bounds 50000 150000 income_preset = (1000, 150000)
   \<and> wealthy_clients ! 1 \<notin> set (filtered_clients wealthy_clients (18, 70) (1000, 150000) (0, 10))
   \<and> sidebar untouched_inputs wealthy_clients = Inr (take 1 wealthy_clients)"
proof -
  have m: "wealthy_clients ! 1 \<in> set wealthy_clients"
    by (simp add: wealthy_clients_def example_defs)
  have b: "real_of_int (max 100000 (trunc (Max (val ` revenu ` set wealthy_clients))))
       < val (revenu (wealthy_clients ! 1))"
    by (simp add: wealthy_clients_def example_defs trunc_def)
  have lo: "int_min (map revenu wealthy_clients) = Inr 50000"
    by (simp add: wealthy_clients_def example_defs int_min_def trunc_def)
  have hi: "int_max (map revenu wealthy_clients) = Inr 150000"
    by (simp add: wealthy_clients_def example_defs int_max_def trunc_def)
  have sb: "slider_bounds 50000 150000 income_preset = (1000, 150000)"
    by (simp add: slider_bounds_def preset_range_def income_preset_def)
  from revenu_above_slider_bounds [OF m b, of "(18, 70)" "(0, 10)"] lo hi sb
  have out: "wealthy_clients ! 1 \<notin>
      set (filtered_clients wealthy_clients (18, 70) (1000, 150000) (0, 10))"
    by (auto simp: widest_def)
  have s: "sidebar untouched_inputs wealthy_clients = Inr (take 1 wealthy_clients)"
    by (simp add: sidebar_def untouched_inputs_def slider_defs wealthy_clients_def example_defs
        filter_defs)
  from m b lo hi sb out s show ?thesis by blast
qed

text \<open>
  The truncated maximum alone does not exclude a record. In the example catalog the
  greatest income, 3000.75, is above its truncation 3000, which the script gives to the
  slider; but the slider runs up to its preset 100000, and before the user touches it the
  view holds all three clients, the one with the income 3000.75 included.
\<close>

theorem revenu_above_truncation_counterexample:
  "real_of_int (trunc (Max (val ` revenu ` set example_clients)))
       < val (revenu (example_clients ! 2))
   \<and> int_max (map revenu example_clients) = Inr 3000
   \<and> slider_bounds 1000 3000 income_preset = (1000, 100000)
   \<and> range_slider (map revenu example_clients) income_preset None = Inr (1000, 100000)
   \<and> sidebar untouched_inputs example_clients = Inr example_clients
   \<and> example_clients ! 2 \<in> set (filtered_clients example_clients (18, 70) (1000, 100000) (0, 10))"
proof -
  have b: "real_of_int (trunc (Max (val ` revenu ` set example_clients)))
       < val (revenu (example_clients ! 2))"
    by (simp add: example_defs trunc_def)
  have hi: "int_max (map revenu example_clients) = Inr 3000"
    by (simp add: example_defs int_max_def trunc_def)
  have sb: "slider_bounds 1000 3000 income_preset = (1000, 100000)"
    by (simp add: slider_bounds_def preset_range_def income_preset_def)
  have rs: "range_slider (map revenu example_clients) income_preset None = Inr (1000, 100000)"
    by (simp add: slider_defs example_defs)
  have s: "sidebar untouched_inputs example_clients = Inr example_clients"
    by (simp add: sidebar_def untouched_inputs_def slider_defs example_defs filter_defs)
  have v: "example_clients ! 2 \<in>
      set (filtered_clients example_clients (18, 70) (1000, 100000) (0, 10))"
    by (simp add: example_defs filter_defs)
  from b hi sb rs s v show ?thesis by blast
qed

section \<open>Runs of the script\<close>

lemma select_rows_col_eq:
  "select_rows view (col_eq (map client_id view) sel) = filter (\<lambda>r. Some (client_id r) = sel) view"
  by (simp add: col_eq_def map_map comp_def select_rows_map)

lemma filter_key_distinct:
  "distinct (map f xs) \<Longrightarrow> filter (\<lambda>x. g (f x)) xs = y # ys \<Longrightarrow> g (f y) \<Longrightarrow>
     (\<And>a b. g a \<Longrightarrow> g b \<Longrightarrow> a = b) \<Longrightarrow> ys = []"
proof (induction xs)
  case Nil
  then show ?case by simp
next
  case (Cons x xs)
  show ?case
  proof (cases "g (f x)")
    case True
    with Cons.prems have y: "y = x" and ys: "ys = filter (\<lambda>x. g (f x)) xs" by simp_all
    have "\<not> g (f z)" if "z \<in> set xs" for z
    proof
      assume "g (f z)"
      with True Cons.prems(4) have "f z = f x" by blast
      with that Cons.prems(1) show False by (auto simp: image_iff)
    qed
    then show ?thesis by (simp add: ys filter_empty_conv)
  next
    case False
    with Cons show ?thesis by simp
  qed
qed


lemma client_absent:
  "client view sel = Inl IndexError \<longleftrightarrow> sel \<notin> Some ` client_id ` set view"
proof (cases "filter (\<lambda>r. Some (client_id r) = sel) view")
  case Nil
  then have "sel \<notin> Some ` client_id ` set view"
    by (auto simp: filter_empty_conv)
  with Nil show ?thesis by (simp add: client_def select_rows_col_eq iloc0_def)
next
  case (Cons r rs)
  then have "r \<in> set (filter (\<lambda>r. Some (client_id r) = sel) view)" by simp
  then have "sel \<in> Some ` client_id ` set view" by auto
  with Cons show ?thesis by (simp add: client_def select_rows_col_eq iloc0_def)
qed

lemma client_error: "client view sel = Inl e \<Longrightarrow> e = IndexError"
  by (simp add: client_def iloc0_def split: list.splits)

lemma client_present:
  assumes "sel \<in> Some ` client_id ` set view"
  shows "\<exists>r. client view sel = Inr r \<and> r \<in> set view \<and> Some (client_id r) = sel
           \<and> (distinct (map client_id view) \<longrightarrow>
                select_rows view (col_eq (map client_id view) sel) = [r])"
proof -
  let ?m = "filter (\<lambda>r. Some (client_id r) = sel) view"
  from assms have "?m \<noteq> []" by (auto simp: filter_empty_conv)
  then obtain r rs where m: "?m = r # rs" by (cases ?m) auto
  then have "r \<in> set ?m" by simp
  then have r: "r \<in> set view" "Some (client_id r) = sel" by auto
  have "rs = []" if d: "distinct (map client_id view)"
    using d m r(2) by (rule filter_key_distinct [where g = "\<lambda>k. Some k = sel"]) auto
  with m r show ?thesis
    by (auto simp: client_def iloc0_def select_rows_col_eq)
qed

lemma selectbox_in_view:
  "selectbox (map client_id view) i \<in> Some ` client_id ` set view \<longleftrightarrow> view \<noteq> []"
proof (cases "view = []")
  case True
  then show ?thesis by (simp add: selectbox_def)
next
  case False
  define j where "j = (if i < length (map client_id view) then i else 0)"
  from False have j: "j < length view" by (auto simp: j_def)
  have "selectbox (map client_id view) i = Some (client_id (view ! j))"
    using False j by (simp add: selectbox_def j_def)
  moreover have "view ! j \<in> set view" using j by (rule nth_mem)
  ultimately have "selectbox (map client_id view) i \<in> Some ` client_id ` set view" by blast
  with False show ?thesis by simp
qed

text \<open>A run whose view is empty ends with the exception of the resolution.\<close>

lemma dashboard_empty_view:
  assumes "csv_file inp = Some rows" and "sidebar inp (reset_index 0 rows) = Inr []"
  shows "dashboard str_float inp = Uncaught IndexError"
proof -
  have "client [] (selectbox (map client_id []) (chosen inp)) = Inl IndexError"
    by (simp add: client_def selectbox_def iloc0_def col_eq_def)
  with assms show ?thesis
    by (simp add: dashboard_def load_clients_def render_def bind_exc_def)
qed

text \<open>A run whose view is not empty resolves the client and goes on to lines 43 to 136.\<close>

lemma dashboard_nonempty_view:
  assumes "csv_file inp = Some rows" and "sidebar inp (reset_index 0 rows) = Inr view"
    and "view \<noteq> []"
  shows "\<exists>c. client view (selectbox (map client_id view) (chosen inp)) = Inr c
     \<and> dashboard str_float inp =
         (case score_and_show str_float (remote inp) (button inp) view c of
            Inl e \<Rightarrow> Uncaught e | Inr p \<Rightarrow> Rendered p)"
proof -
  from assms(3) have "selectbox (map client_id view) (chosen inp) \<in> Some ` client_id ` set view"
    by (simp add: selectbox_in_view)
  from client_present [OF this] obtain c
    where c: "client view (selectbox (map client_id view) (chosen inp)) = Inr c" by blast
  with assms(1,2) have "dashboard str_float inp =
         (case score_and_show str_float (remote inp) (button inp) view c of
            Inl e \<Rightarrow> Uncaught e | Inr p \<Rightarrow> Rendered p)"
    by (simp add: dashboard_def load_clients_def render_def bind_exc_def)
  with c show ?thesis by blast
qed

section \<open>The client selection\<close>

text \<open>
  Claim C2, as the code has it. Resolving the selection raises \<open>IndexError\<close>, and no other
  exception, if and only if the selected id is absent from the ids of the view; the rest
  of the script is then not run, whatever it is. Otherwise the resolution returns a record
  of the view whose \<open>client_id\<close> is the selected id, and that record is the only match
  when the ids of the view are distinct. In the script the selected id comes from the
  select box over the ids of the view, and it is absent if and only if the view is empty:
  every run whose view is empty ends with the \<open>IndexError\<close>, which nothing catches, and
  every run whose view is not empty resolves the client and goes on with lines 43 to 136.
\<close>

theorem client_found_or_index_error:
  "(client view sel = Inl IndexError \<longleftrightarrow> sel \<notin> Some ` client_id ` set view)
   \<and> (\<forall>e. client view sel = Inl e \<longrightarrow> e = IndexError)
   \<and> (sel \<notin> Some ` client_id ` set view \<longrightarrow> bind_exc (client view sel) rest = Inl IndexError)
   \<and> (sel \<in> Some ` client_id ` set view \<longrightarrow>
        (\<exists>r. client view sel = Inr r \<and> r \<in> set view \<and> Some (client_id r) = sel
           \<and> (distinct (map client_id view) \<longrightarrow>
                select_rows view (col_eq (map client_id view) sel) = [r])))
   \<and> client [] (selectbox (map client_id []) i) = Inl IndexError
   \<and> (view \<noteq> [] \<longrightarrow> (\<exists>r. client view (selectbox (map client_id view) i) = Inr r))
   \<and> (selectbox (map client_id view) i \<notin> Some ` client_id ` set view \<longleftrightarrow> view = [])
   \<and> (csv_file inp = Some rows \<and> sidebar inp (reset_index 0 rows) = Inr view \<longrightarrow>
        (view = [] \<longrightarrow> dashboard str_float inp = Uncaught IndexError)
        \<and> (view \<noteq> [] \<longrightarrow>
             (\<exists>c. client view (selectbox (map client_id view) (chosen inp)) = Inr c
                \<and> dashboard str_float inp =
                    (case score_and_show str_float (remote inp) (button inp) view c of
                       Inl e \<Rightarrow> Uncaught e | Inr p \<Rightarrow> Rendered p))))"
proof -
  have absent: "client view sel = Inl IndexError \<longleftrightarrow> sel \<notin> Some ` client_id ` set view"
    by (rule client_absent)
  have only: "\<forall>e. client view sel = Inl e \<longrightarrow> e = IndexError"
    using client_error by blast
  have stops: "sel \<notin> Some ` client_id ` set view \<longrightarrow> bind_exc (client view sel) rest = Inl IndexError"
    using absent by (auto simp: bind_exc_def)
  have found: "sel \<in> Some ` client_id ` set view \<longrightarrow>
        (\<exists>r. client view sel = Inr r \<and> r \<in> set view \<and> Some (client_id r) = sel
           \<and> (distinct (map client_id view) \<longrightarrow>
                select_rows view (col_eq (map client_id view) sel) = [r]))"
    using client_present by blast
  have empty: "client [] (selectbox (map client_id []) i) = Inl IndexError"
    by (simp add: client_def selectbox_def iloc0_def col_eq_def)
  have nonempty: "view \<noteq> [] \<longrightarrow> (\<exists>r. client view (selectbox (map client_id view) i) = Inr r)"
  proof
    assume "view \<noteq> []"
    then have "selectbox (map client_id view) i \<in> Some ` client_id ` set view"
      by (simp add: selectbox_in_view)
    from client_present [OF this]
    show "\<exists>r. client view (selectbox (map client_id view) i) = Inr r" by blast
  qed
  have box: "selectbox (map client_id view) i \<notin> Some ` client_id ` set view \<longleftrightarrow> view = []"
    using selectbox_in_view [of view i] by blast
  have run: "csv_file inp = Some rows \<and> sidebar inp (reset_index 0 rows) = Inr view \<longrightarrow>
        (view = [] \<longrightarrow> dashboard str_float inp = Uncaught IndexError)
        \<and> (view \<noteq> [] \<longrightarrow>
             (\<exists>c. client view (selectbox (map client_id view) (chosen inp)) = Inr c
                \<and> dashboard str_float inp =
                    (case score_and_show str_float (remote inp) (button inp) view c of
                       Inl e \<Rightarrow> Uncaught e | Inr p \<Rightarrow> Rendered p)))"
    using dashboard_empty_view [of inp rows str_float]
      dashboard_nonempty_view [of inp rows view str_float] by blast
  from absent only stops found empty nonempty box run show ?thesis by blast
qed

text \<open>
  The scenario of the specification: in the view of the clients aged 20 and 40, the id of
  the client aged 60 raises and the id of the client aged 40 resolves. With choices that
  no client satisfies, the run ends with the exception.
\<close>

theorem client_found_or_index_error_witness:
  "client (take 2 example_clients) (Some 2) = Inl IndexError
   \<and> Some 2 \<notin> Some ` client_id ` set (take 2 example_clients)
   \<and> Some 1 \<in> Some ` client_id ` set (take 2 example_clients)
   \<and> client (take 2 example_clients) (Some 1) = Inr (example_clients ! 1)
   \<and> csv_file empty_view_inputs = Some example_rows
   \<and> sidebar empty_view_inputs (reset_index 0 example_rows) = Inr []
   \<and> dashboard decimal empty_view_inputs = Uncaught IndexError"
proof -
  have a: "Some 2 \<notin> Some ` client_id ` set (take 2 example_clients)"
    by (simp add: example_defs)
  have b: "Some 1 \<in> Some ` client_id ` set (take 2 example_clients)"
    by (simp add: example_defs)
  from a client_found_or_index_error [of "take 2 example_clients" "Some 2"]
  have c: "client (take 2 example_clients) (Some 2) = Inl IndexError" by blast
  from b client_found_or_index_error [of "take 2 example_clients" "Some 1"]
  obtain r where r: "client (take 2 example_clients) (Some 1) = Inr r"
      "r \<in> set (take 2 example_clients)" "Some (client_id r) = Some 1"
    by blast
  then have "r = example_clients ! 1"
    by (auto simp: example_defs)
  with r have d: "client (take 2 example_clients) (Some 1) = Inr (example_clients ! 1)" by simp
  have f: "csv_file empty_view_inputs = Some example_rows"
    by (simp add: empty_view_inputs_def)
  have s: "sidebar empty_view_inputs (reset_index 0 example_rows) = Inr []"
    by (simp add: sidebar_def empty_view_inputs_def slider_defs example_defs filter_defs)
  from f s client_found_or_index_error [of "[]" _ _ _ empty_view_inputs example_rows decimal]
  have g: "dashboard decimal empty_view_inputs = Uncaught IndexError" by blast
  from a b c d f s g show ?thesis by blast
qed

text \<open>
  The failure of the resolution is not a handled condition: with choices on the sliders
  that no client satisfies, the view is empty, the select box has no option, and the run
  of the script ends with the \<open>IndexError\<close> that nothing catches.
\<close>

theorem client_not_found_counterexample:
  "filtered_clients example_clients (60, 60) (1000, 1000) (0, 0) = []
   \<and> selectbox (map client_id (filtered_clients example_clients (60, 60) (1000, 1000) (0, 0))) 0 = None
   \<and> client [] None = Inl IndexError
   \<and> dashboard decimal empty_view_inputs = Uncaught IndexError"
proof -
  have v: "filtered_clients example_clients (60, 60) (1000, 1000) (0, 0) = []"
    by (simp add: example_defs filter_defs)
  have s: "sidebar empty_view_inputs example_clients = Inr []"
    by (simp add: sidebar_def empty_view_inputs_def slider_defs example_defs filter_defs)
  have c: "client [] None = Inl IndexError"
    by (simp add: client_def iloc0_def col_eq_def)
  have d: "dashboard decimal empty_view_inputs = Uncaught IndexError"
    using s c
    by (simp add: dashboard_def load_clients_def render_def bind_exc_def selectbox_def
        empty_view_inputs_def example_clients_def)
  from v c d show ?thesis by (simp add: selectbox_def)
qed

section \<open>The scoring request\<close>

text \<open>
  Claim C4. The payload has exactly the five keys \<open>age\<close>, \<open>revenu\<close>, \<open>anciennete\<close>,
  \<open>nb_incidents\<close> and \<open>score_credit\<close>, in this order; \<open>age\<close>, \<open>anciennete\<close> and
  \<open>nb_incidents\<close> are integers, the truncation of the cell whether pandas read it as an
  integer or as a float, and \<open>revenu\<close> and \<open>score_credit\<close> are floats.
\<close>

theorem payload_shape:
  "payload c =
     [(''age'', JInt (trunc (val (age c)))),
      (''revenu'', JFloat (val (revenu c))),
      (''anciennete'', JInt (trunc (val (anciennete c)))),
      (''nb_incidents'', JInt (trunc (val (nb_incidents c)))),
      (''score_credit'', JFloat (val (score_credit c)))]
   \<and> map fst (payload c) = [''age'', ''revenu'', ''anciennete'', ''nb_incidents'', ''score_credit'']
   \<and> distinct (map fst (payload c))
   \<and> length (payload c) = 5
   \<and> map (is_int \<circ> snd) (payload c) = [True, False, True, True, False]"
proof -
  have t: "py_int x = trunc (val x)" for x
    by (cases x) (simp_all add: trunc_def)
  show ?thesis by (simp add: payload_def t)
qed

text \<open>
  A record read with float ages and integer incomes gives the same shape.
\<close>

theorem payload_shape_witness:
  "payload (with_id 7 \<lparr>age = F 41.7, revenu = I 2000, anciennete = F 3.9, nb_incidents = F 0.2,
      score_credit = I 1\<rparr>) =
     [(''age'', JInt 41), (''revenu'', JFloat 2000), (''anciennete'', JInt 3),
      (''nb_incidents'', JInt 0), (''score_credit'', JFloat 1)]"
  using payload_shape [of "with_id 7 \<lparr>age = F 41.7, revenu = I 2000, anciennete = F 3.9,
      nb_incidents = F 0.2, score_credit = I 1\<rparr>"]
  by (simp add: with_id_def trunc_def)

section \<open>Normalisation and direction of the contributions\<close>

lemma fold_max_abs: "fold max (map abs cs) \<bar>c::real\<bar> = Max (abs ` set (c # cs))"
  using Max.set_eq_fold [of "\<bar>c\<bar>" "map abs cs"] by simp

text \<open>
  Claim C7. For a non-empty list of contributions the divisor is the greatest absolute
  contribution, or 1 when every contribution is zero; it is positive, so no division by
  zero occurs; each normalised contribution is the contribution divided by it, and is at
  most 1 in absolute value.
\<close>

theorem normalised_by_max_abs:
  assumes "cs \<noteq> []"
  shows "\<exists>m. max_val cs = Inr m
     \<and> m = (if \<forall>c \<in> set cs. c = 0 then 1 else Max (abs ` set cs))
     \<and> 0 < m
     \<and> contributions_norm cs = Inr (map (\<lambda>c. c / m) cs)
     \<and> (\<forall>c \<in> set cs. \<bar>c / m\<bar> \<le> 1)"
proof -
  let ?M = "Max (abs ` set cs)"
  let ?m = "if ?M = 0 then 1 else ?M"
  from assms obtain c cs' where cs: "cs = c # cs'" by (cases cs) auto
  have fin: "finite (abs ` set cs)" and ne: "abs ` set cs \<noteq> {}"
    using assms by simp_all
  have mv: "max_val cs = Inr ?m"
    unfolding cs max_val_def by (simp add: fold_max_abs Let_def del: set_simps image_insert)
  have ub: "\<bar>x\<bar> \<le> ?M" if "x \<in> set cs" for x
    using that fin by (simp add: Max_ge)
  have nonneg: "0 \<le> ?M"
  proof -
    have "c \<in> set cs" by (simp add: cs)
    from ub [OF this] show ?thesis by linarith
  qed
  have zero: "?M = 0 \<longleftrightarrow> (\<forall>c \<in> set cs. c = 0)"
  proof
    assume "?M = 0"
    with ub show "\<forall>c \<in> set cs. c = 0" by fastforce
  next
    assume "\<forall>c \<in> set cs. c = 0"
    then have "abs ` set cs = {0}" using assms by (cases cs) auto
    then show "?M = 0" by simp
  qed
  have choice: "?m = (if \<forall>c \<in> set cs. c = 0 then 1 else ?M)"
    using zero by simp
  have pos: "0 < ?m"
    using nonneg by simp
  have norm: "contributions_norm cs = Inr (map (\<lambda>c. c / ?m) cs)"
    by (simp add: contributions_norm_def mv bind_exc_def)
  have bound: "\<forall>c \<in> set cs. \<bar>c / ?m\<bar> \<le> 1"
  proof
    fix x assume x: "x \<in> set cs"
    show "\<bar>x / ?m\<bar> \<le> 1"
    proof (cases "?M = 0")
      case True
      with zero x have "x = 0" by blast
      then show ?thesis by simp
    next
      case False
      with nonneg ub [OF x] show ?thesis by simp
    qed
  qed
  from mv choice pos norm bound show ?thesis by blast
qed

text \<open>
  For the contributions -0.10 and 0.30 the divisor is 0.30 and the first normalised
  magnitude is one third, within 0.001 of 0.333; for two zeros the divisor is 1.
\<close>

theorem normalised_by_max_abs_witness:
  "max_val [- 0.10, 0.30] = Inr 0.30
   \<and> contributions_norm [- 0.10, 0.30] = Inr [- (1 / 3), 1]
   \<and> \<bar>\<bar>- 0.10 / 0.30\<bar> - 0.333\<bar> < (0.001 :: real)
   \<and> max_val [0, 0] = Inr 1
   \<and> contributions_norm [0, 0] = Inr [0, 0]"
proof -
  have ne: "[- 0.10, 0.30 :: real] \<noteq> []" by simp
  from normalised_by_max_abs [OF ne]
  obtain m where "max_val [- 0.10, 0.30] = Inr m"
    and "contributions_norm [- 0.10, 0.30] = Inr (map (\<lambda>c. c / m) [- 0.10, 0.30])"
    by blast
  moreover have "max_val [- 0.10, 0.30] = Inr 0.30"
    by (simp add: max_val_def)
  ultimately have "contributions_norm [- 0.10, 0.30] = Inr [- (1 / 3), 1]"
    by simp
  then show ?thesis
    by (simp add: max_val_def contributions_norm_def bind_exc_def)
qed

text \<open>
  Claim C8. A strictly negative contribution is shown as reducing the risk, and a
  contribution that is zero or positive as increasing it; the summary line of an
  explanation string carries the direction of its parsed contribution.
\<close>

theorem direction_by_sign:
  "(v < 0 \<longrightarrow> direction v = reduit \<and> color v = ''#4CAF50'')
   \<and> (0 \<le> v \<longrightarrow> direction v = augmente \<and> color v = ''#F44336'')
   \<and> direction 0 = augmente
   \<and> reduit \<noteq> augmente
   \<and> (feature_name f = Inr n \<and> contribution str_float f = Inr v \<longrightarrow>
        summary_line str_float f =
          Inr \<lparr>name = n, line_direction = (if v < 0 then reduit else augmente),
               line_color = color v, magnitude = \<bar>v\<bar>\<rparr>)"
  by (simp add: direction_def color_def summary_line_def bind_exc_def reduit_def augmente_def)

text \<open>
  The two explanation strings of the specification, read with decimal literals.
\<close>

theorem direction_by_sign_witness:
  "direction (- 0.10) = reduit \<and> direction 0.42 = augmente \<and> direction 0 = augmente
   \<and> summary_line decimal age_042 =
        Inr \<lparr>name = str ''age'', line_direction = augmente, line_color = ''#F44336'',
             magnitude = 0.42\<rparr>
   \<and> summary_line decimal revenu_010 =
        Inr \<lparr>name = str ''revenu'', line_direction = reduit, line_color = ''#4CAF50'',
             magnitude = 0.10\<rparr>"
proof -
  have n: "feature_name age_042 = Inr (str ''age'')"
    by (simp add: parse_defs)
  have c: "contribution decimal age_042 = Inr 0.42"
    by (simp add: parse_defs)
  have n': "feature_name revenu_010 = Inr (str ''revenu'')"
    by (simp add: parse_defs)
  have c': "contribution decimal revenu_010 = Inr (- 0.10)"
    by (simp add: parse_defs)
  from direction_by_sign [of "0.42" age_042 "str ''age''" decimal] n c
    direction_by_sign [of "- 0.10" revenu_010 "str ''revenu''" decimal] n' c'
    direction_by_sign [of 0]
  show ?thesis by (simp add: color_def)
qed

section \<open>Malformed explanation strings\<close>

text \<open>Exceptions of a sequence and of a comprehension come from one of their steps.\<close>

lemma isl_bind_exc: "isl (bind_exc m f) \<longleftrightarrow> isl m \<or> (\<exists>x. m = Inr x \<and> isl (f x))"
  by (cases m) (simp_all add: bind_exc_def)

lemma isl_map_exc: "isl (map_exc f xs) \<longleftrightarrow> (\<exists>x \<in> set xs. isl (f x))"
proof (induction xs)
  case Nil
  show ?case by simp
next
  case (Cons x xs)
  show ?case
  proof (cases "f x")
    case (Inl e)
    then show ?thesis by (simp add: bind_exc_def)
  next
    case (Inr y)
    then show ?thesis using Cons.IH
      by (cases "map_exc f xs") (simp_all add: bind_exc_def)
  qed
qed

lemma map_exc_Inr: "map_exc f xs = Inr ys \<Longrightarrow> list_all2 (\<lambda>x y. f x = Inr y) xs ys"
proof (induction xs arbitrary: ys)
  case Nil
  then show ?case by simp
next
  case (Cons x xs)
  then show ?case
    by (auto simp: bind_exc_def split: sum.splits)
qed

lemma map_exc_Inl: "map_exc f xs = Inl e \<Longrightarrow> \<exists>x \<in> set xs. f x = Inl e"
proof (induction xs)
  case Nil
  then show ?case by simp
next
  case (Cons x xs)
  then show ?case
    by (auto simp: bind_exc_def split: sum.splits)
qed

lemma split_on_not_Nil: "split_on sep s \<noteq> []"
  by (induction s) (simp_all split: list.split)

lemma split_on_single: "(\<exists>p. split_on sep s = [p]) \<longleftrightarrow> sep \<notin> set s"
proof (induction s)
  case Nil
  show ?case by simp
next
  case (Cons c cs)
  show ?case
  proof (cases "c = sep")
    case True
    then show ?thesis by (simp add: split_on_not_Nil)
  next
    case False
    with Cons.IH show ?thesis
      by (cases "split_on sep cs") (auto simp: split_on_not_Nil)
  qed
qed

lemma isl_feature_name: "isl (feature_name f) \<longleftrightarrow> quote \<notin> set f"
proof -
  have "isl (feature_name f) \<longleftrightarrow> (\<exists>p. split_on quote f = [p])"
    by (cases "split_on quote f" rule: list.exhaust [case_names Nil Cons])
      (auto simp: feature_name_def split_on_not_Nil split: list.splits)
  then show ?thesis by (simp add: split_on_single)
qed

lemma isl_contribution:
  "isl (contribution str_float f) \<longleftrightarrow>
     (case split_ws f of [] \<Rightarrow> True | t # ts \<Rightarrow> str_float (last (t # ts)) = None)"
  by (auto simp: contribution_def split: list.splits option.splits)

lemma isl_contribution_tail:
  "isl (contribution str_float f) \<longleftrightarrow> \<not> numeric_tail str_float f"
  by (auto simp: isl_contribution numeric_tail_def split: list.splits)

lemma isl_summary_line:
  "isl (summary_line str_float f) \<longleftrightarrow> quote \<notin> set f \<or> \<not> numeric_tail str_float f"
proof -
  have "isl (summary_line str_float f) \<longleftrightarrow> isl (feature_name f) \<or> isl (contribution str_float f)"
    by (cases "feature_name f"; cases "contribution str_float f")
      (simp_all add: summary_line_def bind_exc_def)
  then show ?thesis
    by (simp add: isl_feature_name isl_contribution_tail)
qed

lemma feature_name_error: "feature_name f = Inl e \<Longrightarrow> e = IndexError"
  by (auto simp: feature_name_def split: list.splits)

lemma contribution_error: "contribution str_float f = Inl e \<Longrightarrow> e = IndexError \<or> e = ValueError"
  by (auto simp: contribution_def split: list.splits option.splits)

lemma summary_line_error: "summary_line str_float f = Inl e \<Longrightarrow> e = IndexError \<or> e = ValueError"
  by (auto simp: summary_line_def bind_exc_def split: sum.splits
      dest: feature_name_error contribution_error)

lemma contributions_norm_error: "contributions_norm cs = Inl e \<Longrightarrow> e = ValueError \<and> cs = []"
  by (auto simp: contributions_norm_def max_val_def bind_exc_def Let_def split: list.splits sum.splits)

lemma shap_section_error:
  assumes "shap_section str_float sc fs = Inl e"
  shows "e = IndexError \<or> e = ValueError"
proof -
  from assms have on: "sc \<noteq> None \<and> fs \<noteq> []"
    by (auto simp: shap_section_def split: if_splits)
  show ?thesis
  proof (cases "map_exc feature_name fs")
    case (Inl e1)
    with assms on have "e = e1" by (simp add: shap_section_def bind_exc_def)
    with Inl map_exc_Inl [of feature_name fs e] show ?thesis
      by (auto dest: feature_name_error)
  next
    case names: (Inr features)
    show ?thesis
    proof (cases "map_exc (contribution str_float) fs")
      case (Inl e2)
      with assms on names have "e = e2" by (simp add: shap_section_def bind_exc_def)
      with Inl map_exc_Inl [of "contribution str_float" fs e] show ?thesis
        by (auto dest: contribution_error)
    next
      case vals: (Inr contributions)
      show ?thesis
      proof (cases "contributions_norm contributions")
        case (Inl e3)
        with assms on names vals have "e = e3" by (simp add: shap_section_def bind_exc_def)
        with Inl show ?thesis by (auto dest: contributions_norm_error)
      next
        case norm: (Inr n)
        show ?thesis
        proof (cases "map_exc (summary_line str_float) fs")
          case (Inl e4)
          with assms on names vals norm have "e = e4" by (simp add: shap_section_def bind_exc_def)
          with Inl map_exc_Inl [of "summary_line str_float" fs e] show ?thesis
            by (auto dest: summary_line_error)
        next
          case (Inr ls)
          with assms on names vals norm show ?thesis by (simp add: shap_section_def bind_exc_def)
        qed
      qed
    qed
  qed
qed

lemma shap_section_isl:
  assumes "sc \<noteq> None"
  shows "isl (shap_section str_float sc fs) \<longleftrightarrow>
    (\<exists>f \<in> set fs. quote \<notin> set f \<or> \<not> numeric_tail str_float f)"
proof (cases "fs = []")
  case True
  then show ?thesis by (simp add: shap_section_def)
next
  case False
  have bad: "(\<exists>f \<in> set fs. quote \<notin> set f \<or> \<not> numeric_tail str_float f) \<longleftrightarrow>
      isl (map_exc (summary_line str_float) fs)"
    by (simp add: isl_map_exc isl_summary_line)
  have parts: "isl (map_exc (summary_line str_float) fs) \<longleftrightarrow>
      isl (map_exc feature_name fs) \<or> isl (map_exc (contribution str_float) fs)"
    by (auto simp: isl_map_exc isl_summary_line isl_feature_name isl_contribution_tail)
  show ?thesis
  proof (cases "map_exc feature_name fs")
    case (Inl e)
    with assms False have "isl (shap_section str_float sc fs)"
      by (simp add: shap_section_def bind_exc_def)
    with Inl bad parts show ?thesis by simp
  next
    case names: (Inr features)
    show ?thesis
    proof (cases "map_exc (contribution str_float) fs")
      case (Inl e)
      with assms False names have "isl (shap_section str_float sc fs)"
        by (simp add: shap_section_def bind_exc_def)
      with Inl bad parts show ?thesis by simp
    next
      case vals: (Inr contributions)
      from map_exc_Inr [OF vals] have "length contributions = length fs"
        by (simp add: list_all2_lengthD)
      with False have "contributions \<noteq> []" by auto
      then obtain n where norm: "contributions_norm contributions = Inr n"
        by (cases "contributions_norm contributions") (auto dest: contributions_norm_error)
      from names vals parts have ok: "\<not> isl (map_exc (summary_line str_float) fs)" by simp
      then obtain ls where "map_exc (summary_line str_float) fs = Inr ls"
        by (cases "map_exc (summary_line str_float) fs") auto
      with assms False names vals norm have "\<not> isl (shap_section str_float sc fs)"
        by (simp add: shap_section_def bind_exc_def)
      with ok bad show ?thesis by simp
    qed
  qed
qed

lemma shap_section_shown:
  assumes "shap_section str_float sc fs = Inr (Some v)"
  shows "list_all2 (\<lambda>f n. feature_name f = Inr n) fs (theta v)
    \<and> list_all2 (\<lambda>f l. summary_line str_float f = Inr l) fs (summary_lines v)"
proof -
  from assms have on: "sc \<noteq> None \<and> fs \<noteq> []"
    by (auto simp: shap_section_def split: if_splits)
  with assms obtain features ls where
    "map_exc feature_name fs = Inr features" "map_exc (summary_line str_float) fs = Inr ls"
    "theta v = features" "summary_lines v = ls"
    by (auto simp: shap_section_def bind_exc_def split: sum.splits)
  then show ?thesis by (auto dest: map_exc_Inr)
qed

text \<open>The parts of a split: the first part has no separator and is followed by one.\<close>

lemma split_on_Cons:
  "split_on sep s = p # ps \<Longrightarrow>
     sep \<notin> set p \<and> (if ps = [] then s = p else \<exists>rest. s = p @ sep # rest \<and> split_on sep rest = ps)"
proof (induction s arbitrary: p ps)
  case Nil
  then show ?case by simp
next
  case (Cons c cs)
  show ?case
  proof (cases "c = sep")
    case True
    with Cons.prems have "p = []" and "ps = split_on sep cs" by simp_all
    with True show ?thesis by (simp add: split_on_not_Nil)
  next
    case False
    obtain q qs where q: "split_on sep cs = q # qs"
      by (cases "split_on sep cs") (simp_all add: split_on_not_Nil)
    with False Cons.prems have p: "p = c # q" and ps: "ps = qs" by simp_all
    from Cons.IH [OF q] have "sep \<notin> set q"
      and rest: "if qs = [] then cs = q else \<exists>rest. cs = q @ sep # rest \<and> split_on sep rest = qs"
      by simp_all
    with False p ps show ?thesis by (auto split: if_splits)
  qed
qed

lemma length_split_on: "length (split_on sep s) = Suc (length (filter (\<lambda>c. c = sep) s))"
proof (induction s)
  case Nil
  show ?case by simp
next
  case (Cons c cs)
  then show ?case
    by (cases "split_on sep cs") (simp_all add: split_on_not_Nil)
qed

text \<open>The name of a string with a quoted segment is the text between its first two quotes.\<close>

lemma feature_name_quoted:
  assumes "quoted_segment f" and "feature_name f = Inr n"
  shows "\<exists>a rest. f = a @ quote # n @ quote # rest \<and> quote \<notin> set a \<and> quote \<notin> set n"
proof -
  from assms(1) have "3 \<le> length (split_on quote f)"
    by (simp add: quoted_segment_def length_split_on)
  then obtain a m r ps where sp: "split_on quote f = a # m # r # ps"
    by (cases "split_on quote f" rule: list.exhaust;
        (simp; cases "tl (split_on quote f)"; (simp; cases "tl (tl (split_on quote f))"; simp)))
  with assms(2) have n: "n = m" by (simp add: feature_name_def)
  from split_on_Cons [OF sp] obtain rest
    where a: "quote \<notin> set a" and f: "f = a @ quote # rest"
      and r: "split_on quote rest = m # r # ps"
    by auto
  from split_on_Cons [OF r] obtain rest'
    where m: "quote \<notin> set m" and rest: "rest = m @ quote # rest'"
    by auto
  from a m f rest n show ?thesis by auto
qed

lemma unquoted_malformed: "quote \<notin> set f \<Longrightarrow> \<not> quoted_segment f"
proof -
  assume "quote \<notin> set f"
  then have "filter (\<lambda>c. c = quote) f = []"
    by (auto simp: filter_empty_conv)
  then show ?thesis by (simp add: quoted_segment_def)
qed

text \<open>
  Claim C3, as the code has it. For a response with a score, the factors section raises
  if and only if some explanation string has no quote character at all or has no numeric
  trailing token; the exception is \<open>IndexError\<close> or \<open>ValueError\<close>, and some string of the
  list is then malformed. One such string aborts the section for the whole response: no
  factor of the other strings is shown, nothing catches the exception, lines 43 to 136
  end with it, and so does the run of the script. When the list is not empty and no
  string is malformed, the section shows one name and one summary line for every string,
  in order, the name being the text between the first two quotes of the string.
\<close>

theorem malformed_entry_aborts_factors:
  assumes "sc \<noteq> None"
  shows "((\<exists>f \<in> set fs. quote \<notin> set f \<or> \<not> numeric_tail str_float f) \<longleftrightarrow>
           (\<exists>e. shap_section str_float sc fs = Inl e))
    \<and> (\<forall>e. shap_section str_float sc fs = Inl e \<longrightarrow>
          (e = IndexError \<or> e = ValueError) \<and> (\<exists>f \<in> set fs. malformed str_float f))
    \<and> (fs \<noteq> [] \<and> (\<forall>f \<in> set fs. \<not> malformed str_float f) \<longrightarrow>
         (\<exists>v. shap_section str_float sc fs = Inr (Some v)
            \<and> list_all2 (\<lambda>f n. \<exists>a rest. f = a @ quote # n @ quote # rest
                  \<and> quote \<notin> set a \<and> quote \<notin> set n) fs (theta v)
            \<and> list_all2 (\<lambda>f l. summary_line str_float f = Inr l) fs (summary_lines v)))
    \<and> (score (call_api svc pressed c) = sc \<and> shap_factors (call_api svc pressed c) = fs
         \<and> (\<exists>f \<in> set fs. quote \<notin> set f \<or> \<not> numeric_tail str_float f) \<longrightarrow>
         (\<exists>e. score_and_show str_float svc pressed view c = Inl e
            \<and> (e = IndexError \<or> e = ValueError)))
    \<and> (csv_file inp = Some rows \<and> sidebar inp (reset_index 0 rows) = Inr view
         \<and> client view (selectbox (map client_id view) (chosen inp)) = Inr c
         \<and> remote inp = svc \<and> button inp = pressed
         \<and> score (call_api svc pressed c) = sc \<and> shap_factors (call_api svc pressed c) = fs
         \<and> (\<exists>f \<in> set fs. quote \<notin> set f \<or> \<not> numeric_tail str_float f) \<longrightarrow>
         (\<exists>e. dashboard str_float inp = Uncaught e \<and> (e = IndexError \<or> e = ValueError)))"
proof -
  let ?bad = "\<exists>f \<in> set fs. quote \<notin> set f \<or> \<not> numeric_tail str_float f"
  have a: "?bad \<longleftrightarrow> (\<exists>e. shap_section str_float sc fs = Inl e)"
    using shap_section_isl [OF assms, of str_float fs] by (auto simp: isl_def)
  have mal: "\<exists>f \<in> set fs. malformed str_float f" if ?bad
    using that unquoted_malformed by (auto simp: malformed_def)
  have b: "\<forall>e. shap_section str_float sc fs = Inl e \<longrightarrow>
          (e = IndexError \<or> e = ValueError) \<and> (\<exists>f \<in> set fs. malformed str_float f)"
    using shap_section_error [of str_float sc fs] a mal by blast
  have c: "\<exists>v. shap_section str_float sc fs = Inr (Some v)
            \<and> list_all2 (\<lambda>f n. \<exists>a rest. f = a @ quote # n @ quote # rest
                  \<and> quote \<notin> set a \<and> quote \<notin> set n) fs (theta v)
            \<and> list_all2 (\<lambda>f l. summary_line str_float f = Inr l) fs (summary_lines v)"
    if ne: "fs \<noteq> []" and ok: "\<forall>f \<in> set fs. \<not> malformed str_float f"
  proof -
    from ok have q: "\<forall>f \<in> set fs. quoted_segment f" and t: "\<forall>f \<in> set fs. numeric_tail str_float f"
      by (simp_all add: malformed_def)
    have "\<not> ?bad"
    proof
      assume ?bad
      then obtain f where "f \<in> set fs" and "quote \<notin> set f \<or> \<not> numeric_tail str_float f" by blast
      with q t unquoted_malformed show False by blast
    qed
    with a obtain w where w: "shap_section str_float sc fs = Inr w"
      by (cases "shap_section str_float sc fs") auto
    with assms ne obtain v where v: "w = Some v"
      by (auto simp: shap_section_def bind_exc_def split: sum.splits)
    from w v shap_section_shown [of str_float sc fs v]
    have names: "list_all2 (\<lambda>f n. feature_name f = Inr n) fs (theta v)"
      and ls: "list_all2 (\<lambda>f l. summary_line str_float f = Inr l) fs (summary_lines v)"
      by simp_all
    have "list_all2 (\<lambda>f n. \<exists>a rest. f = a @ quote # n @ quote # rest
                  \<and> quote \<notin> set a \<and> quote \<notin> set n) fs (theta v)"
      unfolding list_all2_conv_all_nth
    proof (intro conjI allI impI)
      show "length fs = length (theta v)" using names by (rule list_all2_lengthD)
    next
      fix i assume i: "i < length fs"
      then have "fs ! i \<in> set fs" by simp
      with q have "quoted_segment (fs ! i)" by blast
      moreover from names i have "feature_name (fs ! i) = Inr (theta v ! i)"
        by (simp add: list_all2_conv_all_nth)
      ultimately show "\<exists>a rest. fs ! i = a @ quote # theta v ! i @ quote # rest
          \<and> quote \<notin> set a \<and> quote \<notin> set (theta v ! i)"
        by (rule feature_name_quoted)
    qed
    with w v ls show ?thesis by blast
  qed
  have d: "\<exists>e. score_and_show str_float svc pressed view c = Inl e
            \<and> (e = IndexError \<or> e = ValueError)"
    if st: "score (call_api svc pressed c) = sc" "shap_factors (call_api svc pressed c) = fs"
      and bad: ?bad for view
  proof -
    from a bad obtain e where e: "shap_section str_float sc fs = Inl e" by blast
    with b have "e = IndexError \<or> e = ValueError" by blast
    moreover from e st have "score_and_show str_float svc pressed view c = Inl e"
      by (simp add: score_and_show_def bind_exc_def)
    ultimately show ?thesis by blast
  qed
  have r: "\<exists>e. dashboard str_float inp = Uncaught e \<and> (e = IndexError \<or> e = ValueError)"
    if f: "csv_file inp = Some rows" and s: "sidebar inp (reset_index 0 rows) = Inr view"
      and cl: "client view (selectbox (map client_id view) (chosen inp)) = Inr c"
      and io: "remote inp = svc" "button inp = pressed"
      and st: "score (call_api svc pressed c) = sc" "shap_factors (call_api svc pressed c) = fs"
      and bad: ?bad
  proof -
    from d [OF st bad, of view] obtain e
      where e: "score_and_show str_float svc pressed view c = Inl e"
        and k: "e = IndexError \<or> e = ValueError" by blast
    from f s cl io e have "dashboard str_float inp = Uncaught e"
      by (simp add: dashboard_def load_clients_def render_def bind_exc_def)
    with k show ?thesis by blast
  qed
  from a b c d r show ?thesis by blast
qed

text \<open>
  A list with a string that has no quote raises, and the run that receives it ends with
  the exception; a list of two well-formed strings gives the two names and the two radii.
\<close>

theorem malformed_entry_aborts_factors_witness:
  "quote \<notin> set no_quote
   \<and> shap_section decimal (Some 0.9) [no_quote, revenu_010] = Inl IndexError
   \<and> dashboard decimal (pressed_inputs (answering 200 (Some \<lparr>score_key = Some 0.9,
        explanations_key = Some [no_quote, revenu_010]\<rparr>))) = Uncaught IndexError
   \<and> \<not> malformed decimal age_030
   \<and> \<not> malformed decimal revenu_010
   \<and> (\<exists>v. shap_section decimal (Some 0.9) [age_030, revenu_010] = Inr (Some v)
          \<and> theta v = [str ''age'', str ''revenu''] \<and> radius v = [1, 1 / 3])"
proof -
  let ?svc = "answering 200 (Some \<lparr>score_key = Some 0.9,
        explanations_key = Some [no_quote, revenu_010]\<rparr>)"
  let ?inp = "pressed_inputs ?svc"
  let ?c = "example_clients ! 0"
  have sc: "Some (0.9::real) \<noteq> None" by simp
  have bad: "quote \<notin> set no_quote"
    by (simp add: no_quote_def str_def quote_def)
  then have ex: "\<exists>f \<in> set [no_quote, revenu_010]. quote \<notin> set f \<or> \<not> numeric_tail decimal f"
    by simp
  have c1: "contribution decimal age_030 = Inr 0.3"
    and c2: "contribution decimal revenu_010 = Inr (- 0.1)"
    by (simp_all add: parse_defs)
  have q1: "quoted_segment age_030" and q2: "quoted_segment revenu_010"
    by (simp_all add: quoted_segment_def parse_defs)
  have g1: "\<not> malformed decimal age_030"
    using isl_contribution_tail [of decimal age_030] c1 q1 by (simp add: malformed_def)
  have g2: "\<not> malformed decimal revenu_010"
    using isl_contribution_tail [of decimal revenu_010] c2 q2 by (simp add: malformed_def)
  have r0: "shap_section decimal (Some 0.9) [no_quote, revenu_010] = Inl IndexError"
    by (simp add: shap_section_def bind_exc_def parse_defs)
  note A = malformed_entry_aborts_factors [OF sc, where fs = "[no_quote, revenu_010]"
      and str_float = decimal, THEN conjunct1]
  from ex A obtain e where "shap_section decimal (Some 0.9) [no_quote, revenu_010] = Inl e"
    by (elim iffE impE exE) auto
  with r0 have r: "shap_section decimal (Some 0.9) [no_quote, revenu_010] = Inl IndexError"
    by simp
  have f: "csv_file ?inp = Some example_rows"
    and io: "remote ?inp = ?svc" "button ?inp = True" "chosen ?inp = 0"
    by (simp_all add: pressed_inputs_def)
  have s: "sidebar ?inp (reset_index 0 example_rows) = Inr (take 2 example_clients)"
    by (simp add: sidebar_def pressed_inputs_def slider_defs example_defs filter_defs)
  have cl: "client (take 2 example_clients)
      (selectbox (map client_id (take 2 example_clients)) (chosen ?inp)) = Inr ?c"
    by (simp add: io client_def selectbox_def iloc0_def col_eq_def example_defs)
  have st: "score (call_api ?svc True ?c) = Some 0.9"
    "shap_factors (call_api ?svc True ?c) = [no_quote, revenu_010]"
    by (simp_all add: api_defs)
  note E = malformed_entry_aborts_factors [OF sc, where fs = "[no_quote, revenu_010]"
      and str_float = decimal and svc = ?svc and pressed = True and c = ?c and inp = ?inp
      and rows = example_rows and view = "take 2 example_clients",
      THEN conjunct2, THEN conjunct2, THEN conjunct2, THEN conjunct2]
  have "\<exists>e. dashboard decimal ?inp = Uncaught e \<and> (e = IndexError \<or> e = ValueError)"
    apply (rule E [THEN mp])
    apply (intro conjI)
           apply (rule f)
          apply (rule s)
         apply (rule cl)
        apply (rule io(1))
       apply (rule io(2))
      apply (rule st(1))
     apply (rule st(2))
    apply (rule ex)
    done
  then obtain e' where e': "dashboard decimal ?inp = Uncaught e'" by (elim exE conjE)
  have "score_and_show decimal ?svc True (take 2 example_clients) ?c = Inl IndexError"
    using st r0 by (simp add: score_and_show_def bind_exc_def)
  with f s cl io have "dashboard decimal ?inp = Uncaught IndexError"
    by (simp add: dashboard_def load_clients_def render_def bind_exc_def)
  with e' have d: "dashboard decimal ?inp = Uncaught IndexError" by simp
  have ok: "[age_030, revenu_010] \<noteq> [] \<and> (\<forall>f \<in> set [age_030, revenu_010]. \<not> malformed decimal f)"
    using g1 g2 by simp
  note C = malformed_entry_aborts_factors [OF sc, where fs = "[age_030, revenu_010]"
      and str_float = decimal, THEN conjunct2, THEN conjunct2, THEN conjunct1]
  from C [THEN mp, OF ok]
  obtain v where v: "shap_section decimal (Some 0.9) [age_030, revenu_010] = Inr (Some v)"
    by (elim exE conjE)
  have "shap_section decimal (Some 0.9) [age_030, revenu_010] =
      Inr (Some \<lparr>theta = [str ''age'', str ''revenu''], radius = [1, 1 / 3],
        summary_lines =
          [\<lparr>name = str ''age'', line_direction = augmente, line_color = ''#F44336'',
             magnitude = 0.3\<rparr>,
           \<lparr>name = str ''revenu'', line_direction = reduit, line_color = ''#4CAF50'',
             magnitude = 0.1\<rparr>]\<rparr>)"
    by (simp add: shap_section_def bind_exc_def parse_defs contributions_norm_def max_val_def
        summary_line_def direction_def color_def)
  with v have "theta v = [str ''age'', str ''revenu''] \<and> radius v = [1, 1 / 3]" by auto
  with bad r d g1 g2 v show ?thesis by blast
qed

text \<open>
  The malformed entry is not skipped: the well-formed string \<^verbatim>\<open>'revenu' contributes -0.10\<close>
  parses on its own, but next to a string without a quote, or to one whose last token is
  not a number, the section raises and the run of the script ends with that exception.
\<close>

theorem malformed_entry_counterexample:
  "shap_section decimal (Some 0.9) [no_quote, revenu_010] = Inl IndexError
   \<and> shap_section decimal (Some 0.9) [revenu_010, no_number] = Inl ValueError
   \<and> summary_line decimal revenu_010 =
       Inr \<lparr>name = str ''revenu'', line_direction = reduit, line_color = ''#4CAF50'',
            magnitude = 0.1\<rparr>
   \<and> dashboard decimal (pressed_inputs (answering 200 (Some \<lparr>score_key = Some 0.9,
        explanations_key = Some [no_quote, revenu_010]\<rparr>)))
     = Uncaught IndexError"
proof -
  let ?svc = "answering 200 (Some \<lparr>score_key = Some 0.9,
        explanations_key = Some [no_quote, revenu_010]\<rparr>)"
  have a: "shap_section decimal (Some 0.9) [no_quote, revenu_010] = Inl IndexError"
    by (simp add: shap_section_def bind_exc_def parse_defs)
  have b: "shap_section decimal (Some 0.9) [revenu_010, no_number] = Inl ValueError"
    by (simp add: shap_section_def bind_exc_def parse_defs)
  have c: "summary_line decimal revenu_010 =
       Inr \<lparr>name = str ''revenu'', line_direction = reduit, line_color = ''#4CAF50'',
            magnitude = 0.1\<rparr>"
    by (simp add: summary_line_def bind_exc_def parse_defs direction_def color_def)
  have f: "csv_file (pressed_inputs ?svc) = Some example_rows"
    and io: "remote (pressed_inputs ?svc) = ?svc" "button (pressed_inputs ?svc) = True"
      "chosen (pressed_inputs ?svc) = 0"
    by (simp_all add: pressed_inputs_def)
  have s: "sidebar (pressed_inputs ?svc) (reset_index 0 example_rows) =
      Inr (take 2 example_clients)"
    by (simp add: sidebar_def pressed_inputs_def slider_defs example_defs filter_defs)
  have cl: "client (take 2 example_clients)
      (selectbox (map client_id (take 2 example_clients)) (chosen (pressed_inputs ?svc)))
      = Inr (example_clients ! 0)"
    by (simp add: io client_def selectbox_def iloc0_def col_eq_def example_defs)
  have st: "score (call_api ?svc True (example_clients ! 0)) = Some 0.9"
    "shap_factors (call_api ?svc True (example_clients ! 0)) = [no_quote, revenu_010]"
    by (simp_all add: api_defs)
  have sh: "score_and_show decimal ?svc True (take 2 example_clients) (example_clients ! 0)
      = Inl IndexError"
    using st a by (simp add: score_and_show_def bind_exc_def)
  from f s cl io sh have d: "dashboard decimal (pressed_inputs ?svc) = Uncaught IndexError"
    by (simp add: dashboard_def load_clients_def render_def bind_exc_def)
  from a b c d show ?thesis by blast
qed

section \<open>Failure of the scoring call\<close>

text \<open>
  Claim C5, as the code has it. When the request raises (network error, time-out) or the
  response has a status from 400 to 599, the exception is caught and shown as the error
  message, the score stays \<open>None\<close> and the factors stay empty, exactly one request was
  sent, and the rest of the script renders the page, with the invitation in place of the
  gauge and no factors section.
\<close>

theorem scoring_failure_is_caught:
  assumes "call_fails svc (payload c)"
  shows "\<exists>e. call_api svc True c =
        \<lparr>score = None, shap_factors = [], api_error = Some e, posted = [payload c]\<rparr>
     \<and> (svc (payload c) = Inl e \<or> (\<exists>r. svc (payload c) = Inr r \<and> e = HTTPError))
     \<and> score_and_show str_float svc True view c =
         Inr \<lparr>sidebar_count = length view, selected = c,
              api = \<lparr>score = None, shap_factors = [], api_error = Some e, posted = [payload c]\<rparr>,
              gauge = Info, explain = None, table = view\<rparr>"
proof (cases "svc (payload c)")
  case (Inl e)
  then have st: "call_api svc True c =
      \<lparr>score = None, shap_factors = [], api_error = Some e, posted = [payload c]\<rparr>"
    by (simp add: call_api_def try_body_def initial_state_def)
  then have "score_and_show str_float svc True view c =
         Inr \<lparr>sidebar_count = length view, selected = c,
              api = \<lparr>score = None, shap_factors = [], api_error = Some e, posted = [payload c]\<rparr>,
              gauge = Info, explain = None, table = view\<rparr>"
    by (simp add: score_and_show_def shap_section_def col_summary_def bind_exc_def)
  with st Inl show ?thesis by blast
next
  case (Inr r)
  with assms have "400 \<le> status_code r \<and> status_code r < 600"
    by (simp add: call_fails_def)
  with Inr have st: "call_api svc True c =
      \<lparr>score = None, shap_factors = [], api_error = Some HTTPError, posted = [payload c]\<rparr>"
    by (simp add: call_api_def try_body_def raise_for_status_def initial_state_def)
  then have "score_and_show str_float svc True view c =
         Inr \<lparr>sidebar_count = length view, selected = c,
              api = \<lparr>score = None, shap_factors = [], api_error = Some HTTPError,
                     posted = [payload c]\<rparr>,
              gauge = Info, explain = None, table = view\<rparr>"
    by (simp add: score_and_show_def shap_section_def col_summary_def bind_exc_def)
  with st Inr show ?thesis by blast
qed

text \<open>
  A time-out and a response with the status 503 on the example catalog.
\<close>

theorem scoring_failure_is_caught_witness:
  "call_fails (\<lambda>_. Inl Timeout) (payload (example_clients ! 0))
   \<and> call_api (\<lambda>_. Inl Timeout) True (example_clients ! 0) =
       \<lparr>score = None, shap_factors = [], api_error = Some Timeout,
        posted = [payload (example_clients ! 0)]\<rparr>
   \<and> call_fails (answering 503 None) (payload (example_clients ! 0))
   \<and> call_api (answering 503 None) True (example_clients ! 0) =
       \<lparr>score = None, shap_factors = [], api_error = Some HTTPError,
        posted = [payload (example_clients ! 0)]\<rparr>
   \<and> dashboard decimal (pressed_inputs (answering 503 None)) =
       Rendered \<lparr>sidebar_count = 2, selected = example_clients ! 0,
         api = \<lparr>score = None, shap_factors = [], api_error = Some HTTPError,
                posted = [payload (example_clients ! 0)]\<rparr>,
         gauge = Info, explain = None, table = take 2 example_clients\<rparr>"
proof -
  have f1: "call_fails (\<lambda>_. Inl Timeout) (payload (example_clients ! 0))"
    by (simp add: call_fails_def)
  have f2: "call_fails (answering 503 None) (payload (example_clients ! 0))"
    by (simp add: call_fails_def answering_def)
  from scoring_failure_is_caught [OF f1, of decimal "take 2 example_clients"]
  have a: "call_api (\<lambda>_. Inl Timeout) True (example_clients ! 0) =
       \<lparr>score = None, shap_factors = [], api_error = Some Timeout,
        posted = [payload (example_clients ! 0)]\<rparr>"
    by auto
  from scoring_failure_is_caught [OF f2, of decimal "take 2 example_clients"]
  have b: "call_api (answering 503 None) True (example_clients ! 0) =
       \<lparr>score = None, shap_factors = [], api_error = Some HTTPError,
        posted = [payload (example_clients ! 0)]\<rparr>"
    and c: "score_and_show decimal (answering 503 None) True (take 2 example_clients)
        (example_clients ! 0) =
       Inr \<lparr>sidebar_count = length (take 2 example_clients), selected = example_clients ! 0,
         api = \<lparr>score = None, shap_factors = [], api_error = Some HTTPError,
                posted = [payload (example_clients ! 0)]\<rparr>,
         gauge = Info, explain = None, table = take 2 example_clients\<rparr>"
    by (auto simp: answering_def)
  have v: "sidebar (pressed_inputs (answering 503 None)) example_clients =
      Inr (take 2 example_clients)"
    by (simp add: sidebar_def pressed_inputs_def slider_defs example_defs filter_defs)
  have pick: "client (take 2 example_clients) (Some 0) = Inr (example_clients ! 0)"
    by (simp add: client_def iloc0_def col_eq_def example_defs)
  have sb: "selectbox (map client_id (take 2 example_clients)) 0 = Some 0"
    by (simp add: selectbox_def example_defs)
  have "render decimal (pressed_inputs (answering 503 None)) example_clients =
      score_and_show decimal (answering 503 None) True (take 2 example_clients) (example_clients ! 0)"
    by (simp add: render_def v bind_exc_def)
      (simp add: pressed_inputs_def sb pick)
  with c have d: "dashboard decimal (pressed_inputs (answering 503 None)) =
       Rendered \<lparr>sidebar_count = 2, selected = example_clients ! 0,
         api = \<lparr>score = None, shap_factors = [], api_error = Some HTTPError,
                posted = [payload (example_clients ! 0)]\<rparr>,
         gauge = Info, explain = None, table = take 2 example_clients\<rparr>"
    by (simp add: dashboard_def load_clients_def pressed_inputs_def example_clients_def)
      (simp add: example_rows_def)
  from f1 a f2 b d show ?thesis by blast
qed

text \<open>
  A response that is not 2xx is not always a failure: with the status 300,
  \<^verbatim>\<open>raise_for_status\<close> returns, the body is decoded and its score is shown.
\<close>

theorem non_2xx_counterexample:
  "\<not> call_fails (answering 300 (Some \<lparr>score_key = Some 0.9, explanations_key = None\<rparr>))
       (payload (example_clients ! 0))
   \<and> call_api (answering 300 (Some \<lparr>score_key = Some 0.9, explanations_key = None\<rparr>)) True
       (example_clients ! 0) =
       \<lparr>score = Some 0.9, shap_factors = [], api_error = None,
        posted = [payload (example_clients ! 0)]\<rparr>
   \<and> col_summary (Some 0.9) = Gauge 90 Eligible"
  by (simp add: call_fails_def api_defs col_summary_def)

section \<open>The empty response\<close>

text \<open>
  Claim C6. For a response that passes the status check and whose body is the empty
  object, the score is \<open>None\<close> and the list of factors is empty, no exception is raised or
  shown, and the page is rendered: the summary column shows the invitation to press the
  button, which it shows for no number (zero included), and there is no factors section.
\<close>

theorem empty_response_gives_no_score:
  assumes "svc (payload c) = Inr r"
    and "status_code r < 400 \<or> 600 \<le> status_code r"
    and "body r = Some empty_response"
  shows "get_score empty_response = None
     \<and> get_explanations empty_response = []
     \<and> call_api svc True c =
         \<lparr>score = None, shap_factors = [], api_error = None, posted = [payload c]\<rparr>
     \<and> col_summary None = Info
     \<and> (\<forall>s. col_summary (Some s) \<noteq> col_summary None)
     \<and> shap_section str_float None [] = Inr None
     \<and> score_and_show str_float svc True view c =
         Inr \<lparr>sidebar_count = length view, selected = c,
              api = \<lparr>score = None, shap_factors = [], api_error = None, posted = [payload c]\<rparr>,
              gauge = Info, explain = None, table = view\<rparr>"
proof -
  have g: "get_score empty_response = None" "get_explanations empty_response = []"
    by (simp_all add: get_score_def get_explanations_def empty_response_def)
  from assms have st: "call_api svc True c =
         \<lparr>score = None, shap_factors = [], api_error = None, posted = [payload c]\<rparr>"
    by (auto simp: call_api_def try_body_def raise_for_status_def json_def g initial_state_def)
  have s: "col_summary None = Info" "\<forall>s. col_summary (Some s) \<noteq> col_summary None"
    "shap_section str_float None [] = Inr None"
    by (simp_all add: col_summary_def shap_section_def)
  from st have "score_and_show str_float svc True view c =
         Inr \<lparr>sidebar_count = length view, selected = c,
              api = \<lparr>score = None, shap_factors = [], api_error = None, posted = [payload c]\<rparr>,
              gauge = Info, explain = None, table = view\<rparr>"
    by (simp add: score_and_show_def shap_section_def col_summary_def bind_exc_def)
  with g st s show ?thesis by blast
qed

text \<open>
  The service that answers 200 with the empty object, on the example catalog.
\<close>

theorem empty_response_gives_no_score_witness:
  "call_api (answering 200 (Some empty_response)) True (example_clients ! 0) =
       \<lparr>score = None, shap_factors = [], api_error = None,
        posted = [payload (example_clients ! 0)]\<rparr>
   \<and> col_summary None = Info
   \<and> col_summary (Some 0) = Gauge 0 NotEligible
   \<and> score_and_show decimal (answering 200 (Some empty_response)) True (take 2 example_clients)
        (example_clients ! 0) =
       Inr \<lparr>sidebar_count = 2, selected = example_clients ! 0,
         api = \<lparr>score = None, shap_factors = [], api_error = None,
                posted = [payload (example_clients ! 0)]\<rparr>,
         gauge = Info, explain = None, table = take 2 example_clients\<rparr>"
proof -
  have a: "answering 200 (Some empty_response) (payload (example_clients ! 0)) =
      Inr \<lparr>status_code = 200, body = Some empty_response\<rparr>"
    by (simp add: answering_def)
  have b: "status_code \<lparr>status_code = 200, body = Some empty_response\<rparr> < 400
      \<or> 600 \<le> status_code \<lparr>status_code = 200, body = Some empty_response\<rparr>"
    by simp
  have c: "body \<lparr>status_code = 200, body = Some empty_response\<rparr> = Some empty_response"
    by simp
  from empty_response_gives_no_score [where svc = "answering 200 (Some empty_response)"
      and c = "example_clients ! 0" and r = "\<lparr>status_code = 200, body = Some empty_response\<rparr>"
      and str_float = decimal and view = "take 2 example_clients", OF a b c]
  show ?thesis by (simp add: col_summary_def example_defs)
qed

end
